theory Spec2Isabelle
  imports Complex_Main
begin

section \<open>Rotosolve and Rotoselect (tutorial\_rotoselect/demo.py)\<close>

text \<open>
  The optimizers of \<^verbatim>\<open>demo.py\<close> work on a NumPy array \<^verbatim>\<open>params\<close> (and, for Rotoselect,
  an array \<^verbatim>\<open>generators\<close> of one-letter strings) that they mutate in place, and on a cost
  function they call as a black box. The embedding keeps that shape:
  \<^item> Python floats are idealised as \<^typ>\<open>real\<close>: rounding, signed zeros and NaN are outside
    the model;
  \<^item> the arrays live in a record that every function takes and returns (state passing);
  \<^item> an index is a Python \<^typ>\<open>int\<close>; a subscript out of range raises \<^verbatim>\<open>IndexError\<close>, a
    negative one counts from the end;
  \<^item> the cost function is a parameter. The device of the source samples
    (\<^verbatim>\<open>shots=1000\<close>), so the oracle carries a hidden state of its own: it is a function
    from its state and its arguments to a value and its next state. It is taken to return
    and to leave the arrays it is given as they are (an oracle that raises, or that writes
    to \<^verbatim>\<open>params\<close>, is outside the model);
  \<^item> the record counts the oracle's invocations in \<open>ncalls\<close>, a ghost field the source does
    not have, so that evaluation budgets can be stated.
\<close>

subsection \<open>Errors and the program monad\<close>

datatype error = IndexError | UnboundLocalError

type_synonym ('st, 'a) prog = "'st \<Rightarrow> error + ('a \<times> 'st)"

definition return :: "'a \<Rightarrow> ('st, 'a) prog" where
  "return x = (\<lambda>w. Inr (x, w))"

definition raise :: "error \<Rightarrow> ('st, 'a) prog" where
  "raise e = (\<lambda>w. Inl e)"

definition bind :: "('st, 'a) prog \<Rightarrow> ('a \<Rightarrow> ('st, 'b) prog) \<Rightarrow> ('st, 'b) prog" where
  "bind m f = (\<lambda>w. case m w of Inl e \<Rightarrow> Inl e | Inr (x, w') \<Rightarrow> f x w')"

text \<open>A \<^verbatim>\<open>for\<close> loop over a fixed sequence, threading the loop's local variables \<open>acc\<close>.\<close>

fun for_loop :: "'a list \<Rightarrow> ('a \<Rightarrow> 'b \<Rightarrow> ('st, 'b) prog) \<Rightarrow> 'b \<Rightarrow> ('st, 'b) prog" where
  "for_loop [] body acc = return acc"
| "for_loop (x # xs) body acc = bind (body x acc) (for_loop xs body)"

text \<open>\<^verbatim>\<open>range(n)\<close>: the integers \<open>0, \<dots>, n - 1\<close>, none when \<open>n \<le> 0\<close>.\<close>

definition range_py :: "int \<Rightarrow> int list" where
  "range_py n = map int [0..<nat n]"

subsection \<open>Subscripts\<close>

text \<open>
  Python's index normalisation for a sequence of length \<open>n\<close>: \<open>d\<close> in \<open>[0, n)\<close> is itself,
  \<open>d\<close> in \<open>[-n, 0)\<close> is \<open>n + d\<close>, anything else is out of range.
\<close>

definition norm_index :: "int \<Rightarrow> nat \<Rightarrow> nat option" where
  "norm_index d n =
     (if 0 \<le> d \<and> d < int n then Some (nat d)
      else if - int n \<le> d \<and> d < 0 then Some (nat (int n + d))
      else None)"

definition getitem :: "'a list \<Rightarrow> int \<Rightarrow> error + 'a" where
  "getitem xs d = (case norm_index d (length xs) of None \<Rightarrow> Inl IndexError | Some i \<Rightarrow> Inr (xs ! i))"

definition setitem :: "'a list \<Rightarrow> int \<Rightarrow> 'a \<Rightarrow> error + 'a list" where
  "setitem xs d v =
     (case norm_index d (length xs) of None \<Rightarrow> Inl IndexError | Some i \<Rightarrow> Inr (xs[i := v]))"

subsection \<open>The state\<close>

record 's world =
  params :: "real list"
  ostate :: 's
  ncalls :: nat

record 's sel_world = "'s world" +
  generators :: "string list"

text \<open>The cost oracle of Rotosolve, \<^verbatim>\<open>cost(params)\<close>, and of Rotoselect,
  \<^verbatim>\<open>cost(params, generators)\<close>.\<close>

type_synonym 's cost_fn = "'s \<Rightarrow> real list \<Rightarrow> real \<times> 's"
type_synonym 's sel_cost_fn = "'s \<Rightarrow> real list \<Rightarrow> string list \<Rightarrow> real \<times> 's"

text \<open>A deterministic oracle: a function of its explicit arguments only.\<close>

definition deterministic :: "(real list \<Rightarrow> real) \<Rightarrow> 's cost_fn" where
  "deterministic f = (\<lambda>s ps. (f ps, s))"

text \<open>\<^verbatim>\<open>params[d] = v\<close> and \<^verbatim>\<open>params[d]\<close>.\<close>

definition set_param :: "int \<Rightarrow> real \<Rightarrow> (('s, 'm) world_scheme, unit) prog" where
  "set_param d v =
     (\<lambda>w. case setitem (params w) d v of Inl e \<Rightarrow> Inl e | Inr ps \<Rightarrow> Inr ((), w\<lparr>params := ps\<rparr>))"

definition get_param :: "int \<Rightarrow> (('s, 'm) world_scheme, real) prog" where
  "get_param d = (\<lambda>w. case getitem (params w) d of Inl e \<Rightarrow> Inl e | Inr v \<Rightarrow> Inr (v, w))"

text \<open>\<^verbatim>\<open>generators[d] = g\<close>.\<close>

definition set_generator :: "int \<Rightarrow> string \<Rightarrow> (('s, 'm) sel_world_scheme, unit) prog" where
  "set_generator d g =
     (\<lambda>w. case setitem (generators w) d g of Inl e \<Rightarrow> Inl e
          | Inr gs \<Rightarrow> Inr ((), w\<lparr>generators := gs\<rparr>))"

text \<open>\<^verbatim>\<open>cost(params)\<close> and \<^verbatim>\<open>cost(params, generators)\<close>: one invocation of the oracle.\<close>

definition call_cost :: "'s cost_fn \<Rightarrow> (('s, 'm) world_scheme, real) prog" where
  "call_cost cost =
     (\<lambda>w. case cost (ostate w) (params w) of
            (v, s') \<Rightarrow> Inr (v, w\<lparr>ostate := s', ncalls := Suc (ncalls w)\<rparr>))"

definition call_cost_sel :: "'s sel_cost_fn \<Rightarrow> (('s, 'm) sel_world_scheme, real) prog" where
  "call_cost_sel cost =
     (\<lambda>w. case cost (ostate w) (params w) (generators w) of
            (v, s') \<Rightarrow> Inr (v, w\<lparr>ostate := s', ncalls := Suc (ncalls w)\<rparr>))"

subsection \<open>The two-argument arctangent\<close>

text \<open>
  \<^verbatim>\<open>np.arctan2(y, x)\<close> is NumPy's, not the repository's. On reals it is the angle of the
  point \<open>(x, y)\<close> in \<open>(-\<pi>, \<pi>]\<close>, and \<open>0\<close> at the origin.
\<close>

definition arctan2 :: "real \<Rightarrow> real \<Rightarrow> real" where
  "arctan2 y x =
     (if 0 < x then arctan (y / x)
      else if x < 0 then (if 0 \<le> y then arctan (y / x) + pi else arctan (y / x) - pi)
      else if 0 < y then pi / 2
      else if y < 0 then - pi / 2
      else 0)"

subsection \<open>Rotosolve\<close>

text \<open>
  \<^verbatim>\<open>opt_theta(d, params, cost)\<close>, lines 183-197: three probes of the oracle, the closed form,
  and the wrap into \<open>(-\<pi>, \<pi>]\<close>.
\<close>

definition opt_theta :: "int \<Rightarrow> 's cost_fn \<Rightarrow> (('s, 'm) world_scheme, unit) prog" where
  "opt_theta d cost =
     bind (set_param d 0) (\<lambda>_.
     bind (call_cost cost) (\<lambda>M_0.
     bind (set_param d (pi / 2)) (\<lambda>_.
     bind (call_cost cost) (\<lambda>M_0_plus.
     bind (set_param d (- pi / 2)) (\<lambda>_.
     bind (call_cost cost) (\<lambda>M_0_minus.
     let a = arctan2 (2 * M_0 - M_0_plus - M_0_minus) (M_0_plus - M_0_minus) in
     bind (set_param d (- pi / 2 - a)) (\<lambda>_.
     bind (get_param d) (\<lambda>p.
     if p \<le> - pi
     then bind (get_param d) (\<lambda>q. set_param d (q + 2 * pi))
     else return ()))))))))"

text \<open>\<^verbatim>\<open>rotosolve_cycle(cost, params)\<close>, lines 201-204. It returns the array it was given.\<close>

definition rotosolve_cycle :: "'s cost_fn \<Rightarrow> (('s, 'm) world_scheme, real list) prog" where
  "rotosolve_cycle cost =
     (\<lambda>w. bind (for_loop (range_py (int (length (params w)))) (\<lambda>d _. opt_theta d cost) ())
             (\<lambda>_ w'. Inr (params w', w')) w)"

subsection \<open>Rotoselect\<close>

text \<open>
  \<^verbatim>\<open>rotosolve(d, params, generators, cost, M_0)\<close>, lines 357-368: the update rule with the
  cost at angle \<open>0\<close> handed in. It returns the cost at the angle it commits.
\<close>

definition rotosolve ::
  "int \<Rightarrow> 's sel_cost_fn \<Rightarrow> real \<Rightarrow> (('s, 'm) sel_world_scheme, real) prog" where
  "rotosolve d cost M_0 =
     bind (set_param d (pi / 2)) (\<lambda>_.
     bind (call_cost_sel cost) (\<lambda>M_0_plus.
     bind (set_param d (- pi / 2)) (\<lambda>_.
     bind (call_cost_sel cost) (\<lambda>M_0_minus.
     let a = arctan2 (2 * M_0 - M_0_plus - M_0_minus) (M_0_plus - M_0_minus) in
     bind (set_param d (- pi / 2 - a)) (\<lambda>_.
     bind (get_param d) (\<lambda>p.
     bind (if p \<le> - pi
           then bind (get_param d) (\<lambda>q. set_param d (q + 2 * pi))
           else return ()) (\<lambda>_.
     call_cost_sel cost)))))))"

text \<open>
  \<^verbatim>\<open>optimal_theta_and_gen_helper(d, params, generators, cost)\<close>, lines 371-382. Its three
  locals \<^verbatim>\<open>params_opt_d\<close>, \<^verbatim>\<open>params_opt_cost\<close>, \<^verbatim>\<open>generators_opt_d\<close> are bound together in
  the body of the \<^verbatim>\<open>if\<close>: \<open>None\<close> is "not bound yet", and reading them unbound raises.
  In \<^verbatim>\<open>generator == "X" or params_cost <= params_opt_cost\<close> the right operand is evaluated
  only when the left one is false.
\<close>

type_synonym incumbent = "(real \<times> real \<times> string) option"

definition helper_step ::
  "int \<Rightarrow> 's sel_cost_fn \<Rightarrow> real \<Rightarrow> string \<Rightarrow> incumbent \<Rightarrow> (('s, 'm) sel_world_scheme, incumbent) prog"
  where
  "helper_step d cost M_0 generator opt =
     bind (set_generator d generator) (\<lambda>_.
     bind (rotosolve d cost M_0) (\<lambda>params_cost.
     bind (if generator = ''X'' then return True
           else (case opt of
                   None \<Rightarrow> raise UnboundLocalError
                 | Some (params_opt_d, params_opt_cost, generators_opt_d) \<Rightarrow>
                     return (params_cost \<le> params_opt_cost))) (\<lambda>better.
     if better
     then bind (get_param d) (\<lambda>p. return (Some (p, params_cost, generator)))
     else return opt)))"

definition optimal_theta_and_gen_helper ::
  "int \<Rightarrow> 's sel_cost_fn \<Rightarrow> (('s, 'm) sel_world_scheme, real \<times> string) prog" where
  "optimal_theta_and_gen_helper d cost =
     bind (set_param d 0) (\<lambda>_.
     bind (call_cost_sel cost) (\<lambda>M_0.
     bind (for_loop [''X'', ''Y'', ''Z''] (helper_step d cost M_0) None) (\<lambda>opt.
     case opt of
       None \<Rightarrow> raise UnboundLocalError
     | Some (params_opt_d, params_opt_cost, generators_opt_d) \<Rightarrow>
         return (params_opt_d, generators_opt_d))))"

text \<open>
  \<^verbatim>\<open>rotoselect_cycle(cost, params, generators)\<close>, lines 385-388. The right-hand side of the
  tuple assignment runs first; then \<^verbatim>\<open>params[d]\<close> and \<^verbatim>\<open>generators[d]\<close> are stored, in
  that order.
\<close>

definition rotoselect_step :: "'s sel_cost_fn \<Rightarrow> int \<Rightarrow> (('s, 'm) sel_world_scheme, unit) prog" where
  "rotoselect_step cost d =
     bind (optimal_theta_and_gen_helper d cost) (\<lambda>(p, g).
     bind (set_param d p) (\<lambda>_.
     set_generator d g))"

definition rotoselect_cycle ::
  "'s sel_cost_fn \<Rightarrow> (('s, 'm) sel_world_scheme, real list \<times> string list) prog" where
  "rotoselect_cycle cost =
     (\<lambda>w. bind (for_loop (range_py (int (length (params w)))) (\<lambda>d _. rotoselect_step cost d) ())
             (\<lambda>_ w'. Inr ((params w', generators w'), w')) w)"

subsection \<open>The optimization loops\<close>

text \<open>
  Lines 218-222 and 400-406, with the step count, the oracle and the initial arrays as
  parameters (the script fixes \<^verbatim>\<open>n_steps = 30\<close>). The result is the list of recorded costs.
\<close>

definition costs_rotosolve :: "'s cost_fn \<Rightarrow> int \<Rightarrow> (('s, 'm) world_scheme, real list) prog" where
  "costs_rotosolve cost n_steps =
     for_loop (range_py n_steps)
       (\<lambda>i costs.
          bind (call_cost cost) (\<lambda>c.
          bind (rotosolve_cycle cost) (\<lambda>_.
          return (costs @ [c]))))
       []"

definition costs_rsel :: "'s sel_cost_fn \<Rightarrow> int \<Rightarrow> (('s, 'm) sel_world_scheme, real list) prog" where
  "costs_rsel cost n_steps =
     for_loop (range_py n_steps)
       (\<lambda>i costs.
          bind (call_cost_sel cost) (\<lambda>c.
          bind (rotoselect_cycle cost) (\<lambda>_.
          return (costs @ [c]))))
       []"

subsection \<open>Gate dispatch\<close>

text \<open>
  \<^verbatim>\<open>RGen(param, generator, wires)\<close>, lines 317-323. A PennyLane gate constructor called
  inside a circuit function appends the gate to the circuit being recorded; the state of
  \<open>RGen\<close> is that list of gates. The \<^verbatim>\<open>if\<close>/\<^verbatim>\<open>elif\<close> chain has no \<^verbatim>\<open>else\<close>.
\<close>

datatype gate = RX real nat | RY real nat | RZ real nat | CNOT nat nat

definition queue :: "gate \<Rightarrow> (gate list, unit) prog" where
  "queue g = (\<lambda>tape. Inr ((), tape @ [g]))"

definition RGen :: "real \<Rightarrow> string \<Rightarrow> nat \<Rightarrow> (gate list, unit) prog" where
  "RGen param generator wires =
     (if generator = ''X'' then queue (RX param wires)
      else if generator = ''Y'' then queue (RY param wires)
      else if generator = ''Z'' then queue (RZ param wires)
      else return ())"

subsection \<open>Closed forms of the runs\<close>

text \<open>
  The functions below are not in the source. They say, without the monad, what a run of
  each source function computes from the state it starts in; the lemmas after them prove
  that the source functions compute exactly that. \<open>theta_star\<close> is the update rule's closed
  form: \<open>-\<pi>/2 - a\<close>, plus \<open>2\<pi>\<close> when that is at or below \<open>-\<pi>\<close>.
\<close>

definition theta_star :: "real \<Rightarrow> real \<Rightarrow> real \<Rightarrow> real" where
  "theta_star M0 Mp Mm =
     (let t = - pi / 2 - arctan2 (2 * M0 - Mp - Mm) (Mp - Mm)
      in if t \<le> - pi then t + 2 * pi else t)"

definition opt_theta_result :: "nat \<Rightarrow> 's cost_fn \<Rightarrow> ('s, 'm) world_scheme \<Rightarrow> ('s, 'm) world_scheme" where
  "opt_theta_result i cost w =
     (let ps = params w;
          r0 = cost (ostate w) (ps[i := 0]);
          rp = cost (snd r0) (ps[i := pi / 2]);
          rm = cost (snd rp) (ps[i := - pi / 2])
      in w\<lparr>params := ps[i := theta_star (fst r0) (fst rp) (fst rm)],
            ostate := snd rm, ncalls := ncalls w + 3\<rparr>)"

definition sel_probe ::
  "nat \<Rightarrow> 's sel_cost_fn \<Rightarrow> real \<Rightarrow> ('s, 'm) sel_world_scheme \<Rightarrow> real \<times> ('s, 'm) sel_world_scheme" where
  "sel_probe i cost M_0 w =
     (let ps = params w; gs = generators w;
          rp = cost (ostate w) (ps[i := pi / 2]) gs;
          rm = cost (snd rp) (ps[i := - pi / 2]) gs;
          t = theta_star M_0 (fst rp) (fst rm);
          rc = cost (snd rm) (ps[i := t]) gs
      in (fst rc, w\<lparr>params := ps[i := t], ostate := snd rc, ncalls := ncalls w + 3\<rparr>))"

definition candidate ::
  "nat \<Rightarrow> 's sel_cost_fn \<Rightarrow> real \<Rightarrow> string \<Rightarrow> ('s, 'm) sel_world_scheme \<Rightarrow> real \<times> ('s, 'm) sel_world_scheme"
  where
  "candidate i cost M_0 g w = sel_probe i cost M_0 (w\<lparr>generators := (generators w)[i := g]\<rparr>)"

definition replace :: "nat \<Rightarrow> string \<Rightarrow> real \<times> ('s, 'm) sel_world_scheme \<Rightarrow> incumbent \<Rightarrow> incumbent" where
  "replace i g r opt =
     (if g = ''X'' \<or> (case opt of None \<Rightarrow> False | Some (p0, c0, g0) \<Rightarrow> fst r \<le> c0)
      then Some (params (snd r) ! i, fst r, g) else opt)"

definition baseline ::
  "nat \<Rightarrow> 's sel_cost_fn \<Rightarrow> ('s, 'm) sel_world_scheme \<Rightarrow> real \<times> ('s, 'm) sel_world_scheme" where
  "baseline i cost w =
     (let r0 = cost (ostate w) ((params w)[i := 0]) (generators w)
      in (fst r0, w\<lparr>params := (params w)[i := 0], ostate := snd r0, ncalls := Suc (ncalls w)\<rparr>))"

definition winner ::
  "nat \<Rightarrow> real \<times> ('s, 'm) sel_world_scheme \<Rightarrow> real \<times> ('s, 'm) sel_world_scheme \<Rightarrow>
   real \<times> ('s, 'm) sel_world_scheme \<Rightarrow> real \<times> string" where
  "winner i rX rY rZ =
     (if fst rZ \<le> (if fst rY \<le> fst rX then fst rY else fst rX) then (params (snd rZ) ! i, ''Z'')
      else if fst rY \<le> fst rX then (params (snd rY) ! i, ''Y'')
      else (params (snd rX) ! i, ''X''))"

definition helper_result ::
  "nat \<Rightarrow> 's sel_cost_fn \<Rightarrow> ('s, 'm) sel_world_scheme \<Rightarrow> (real \<times> string) \<times> ('s, 'm) sel_world_scheme"
  where
  "helper_result i cost w =
     (let b = baseline i cost w;
          rX = candidate i cost (fst b) ''X'' (snd b);
          rY = candidate i cost (fst b) ''Y'' (snd rX);
          rZ = candidate i cost (fst b) ''Z'' (snd rY)
      in (winner i rX rY rZ, snd rZ))"

definition step_result ::
  "nat \<Rightarrow> 's sel_cost_fn \<Rightarrow> ('s, 'm) sel_world_scheme \<Rightarrow> ('s, 'm) sel_world_scheme" where
  "step_result i cost w =
     (let r = helper_result i cost w
      in (snd r)\<lparr>params := (params (snd r))[i := fst (fst r)],
                  generators := (generators (snd r))[i := snd (fst r)]\<rparr>)"

section \<open>Lemmas about the embedding\<close>

lemma norm_index_less: "norm_index d n = Some i \<Longrightarrow> i < n"
  by (auto simp: norm_index_def split: if_splits)

lemma norm_index_nonneg: "0 \<le> d \<Longrightarrow> d < int n \<Longrightarrow> norm_index d n = Some (nat d)"
  by (simp add: norm_index_def)

lemma norm_index_int: "i < n \<Longrightarrow> norm_index (int i) n = Some i"
  by (simp add: norm_index_def)

lemma set_param_run:
  "norm_index d (length (params w)) = Some i \<Longrightarrow>
   set_param d v w = Inr ((), w\<lparr>params := (params w)[i := v]\<rparr>)"
  by (simp add: set_param_def setitem_def)

lemma get_param_run:
  "norm_index d (length (params w)) = Some i \<Longrightarrow> get_param d w = Inr (params w ! i, w)"
  by (simp add: get_param_def getitem_def)

lemma set_generator_run:
  "norm_index d (length (generators w)) = Some i \<Longrightarrow>
   set_generator d g w = Inr ((), w\<lparr>generators := (generators w)[i := g]\<rparr>)"
  by (simp add: set_generator_def setitem_def)

lemma call_cost_run:
  "call_cost cost w =
     Inr (fst (cost (ostate w) (params w)),
          w\<lparr>ostate := snd (cost (ostate w) (params w)), ncalls := Suc (ncalls w)\<rparr>)"
  by (simp add: call_cost_def split: prod.splits)

lemma call_cost_sel_run:
  "call_cost_sel cost w =
     Inr (fst (cost (ostate w) (params w) (generators w)),
          w\<lparr>ostate := snd (cost (ostate w) (params w) (generators w)), ncalls := Suc (ncalls w)\<rparr>)"
  by (simp add: call_cost_sel_def split: prod.splits)

lemma arctan2_range: "- pi < arctan2 y x \<and> arctan2 y x \<le> pi"
proof -
  have lb: "- (pi / 2) < arctan (y / x)" and ub: "arctan (y / x) < pi / 2"
    by (rule arctan_lbound, rule arctan_ubound)
  have neg: "x < 0 \<Longrightarrow> 0 \<le> y \<Longrightarrow> arctan (y / x) \<le> 0"
    by (simp add: divide_nonneg_neg)
  have pos: "x < 0 \<Longrightarrow> y < 0 \<Longrightarrow> 0 < arctan (y / x)"
    by (simp add: divide_neg_neg)
  show ?thesis
    using lb ub neg pos pi_gt_zero by (auto simp: arctan2_def)
qed

lemma theta_star_range: "- pi < theta_star M0 Mp Mm \<and> theta_star M0 Mp Mm \<le> pi"
  using arctan2_range [of "2 * M0 - Mp - Mm" "Mp - Mm"] pi_gt_zero
  by (auto simp: theta_star_def Let_def)

lemma opt_theta_run:
  assumes "norm_index d (length (params w)) = Some i"
  shows "opt_theta d cost w = Inr ((), opt_theta_result i cost w)"
  using assms norm_index_less[OF assms]
  by (simp add: opt_theta_def opt_theta_result_def bind_def set_param_run get_param_run call_cost_run Let_def theta_star_def return_def)

lemma opt_theta_raises:
  assumes "norm_index d (length (params w)) = None"
  shows "opt_theta d cost w = Inl IndexError"
  using assms by (simp add: opt_theta_def bind_def set_param_def setitem_def)

lemma rotosolve_run:
  assumes "norm_index d (length (params w)) = Some i"
  shows "rotosolve d cost M_0 w = Inr (sel_probe i cost M_0 w)"
  using assms norm_index_less[OF assms]
  by (simp add: rotosolve_def sel_probe_def bind_def set_param_run get_param_run call_cost_sel_run Let_def theta_star_def return_def)

lemma for_loop_append:
  "for_loop (xs @ ys) body acc = bind (for_loop xs body acc) (for_loop ys body)"
  by (induction xs arbitrary: acc) (auto simp: bind_def return_def fun_eq_iff split: sum.splits)

lemma sel_probe_simps [simp]:
  "length (params (snd (sel_probe i cost M w))) = length (params w)"
  "generators (snd (sel_probe i cost M w)) = generators w"
  "ncalls (snd (sel_probe i cost M w)) = ncalls w + 3"
  "e \<noteq> i \<Longrightarrow> params (snd (sel_probe i cost M w)) ! e = params w ! e"
  by (simp_all add: sel_probe_def Let_def)

lemma sel_probe_range:
  "i < length (params w) \<Longrightarrow>
   - pi < params (snd (sel_probe i cost M w)) ! i \<and> params (snd (sel_probe i cost M w)) ! i \<le> pi"
  using theta_star_range by (simp add: sel_probe_def Let_def)

lemma candidate_simps [simp]:
  "length (params (snd (candidate i cost M g w))) = length (params w)"
  "generators (snd (candidate i cost M g w)) = (generators w)[i := g]"
  "ncalls (snd (candidate i cost M g w)) = ncalls w + 3"
  "e \<noteq> i \<Longrightarrow> params (snd (candidate i cost M g w)) ! e = params w ! e"
  by (simp_all add: candidate_def)

lemma candidate_range:
  "i < length (params w) \<Longrightarrow>
   - pi < params (snd (candidate i cost M g w)) ! i \<and> params (snd (candidate i cost M g w)) ! i \<le> pi"
  using sel_probe_range [of i "w\<lparr>generators := (generators w)[i := g]\<rparr>" cost M]
  by (simp add: candidate_def)

lemma candidate_run:
  assumes "norm_index d (length (params w)) = Some i"
    and "length (generators w) = length (params w)"
  shows "bind (set_generator d g) (\<lambda>_. rotosolve d cost M_0) w = Inr (candidate i cost M_0 g w)"
  using assms by (simp add: bind_def set_generator_run rotosolve_run candidate_def)

lemma helper_step_run:
  assumes "norm_index d (length (params w)) = Some i"
    and "length (generators w) = length (params w)"
    and "g = ''X'' \<or> opt \<noteq> None"
  shows "helper_step d cost M_0 g opt w =
           Inr (replace i g (candidate i cost M_0 g w) opt, snd (candidate i cost M_0 g w))"
proof -
  have idx: "\<And>g'. norm_index d (length (params (snd (candidate i cost M_0 g' w)))) = Some i"
    using assms(1) by simp
  have gidx: "norm_index d (length (generators w)) = Some i"
    using assms(1,2) by simp
  have run: "\<And>g'. rotosolve d cost M_0 (w\<lparr>generators := (generators w)[i := g']\<rparr>) =
               Inr (fst (candidate i cost M_0 g' w), snd (candidate i cost M_0 g' w))"
    using assms(1) by (simp add: rotosolve_run candidate_def)
  show ?thesis
    using assms(3)
    by (cases opt)
      (auto simp: helper_step_def bind_def set_generator_run[OF gidx] run
        get_param_run[OF idx] return_def replace_def case_prod_beta)
qed

lemma baseline_simps [simp]:
  "length (params (snd (baseline i cost w))) = length (params w)"
  "generators (snd (baseline i cost w)) = generators w"
  "ncalls (snd (baseline i cost w)) = Suc (ncalls w)"
  "e \<noteq> i \<Longrightarrow> params (snd (baseline i cost w)) ! e = params w ! e"
  by (simp_all add: baseline_def Let_def)

lemma baseline_run:
  assumes "norm_index d (length (params w)) = Some i"
  shows "bind (set_param d 0) (\<lambda>_. call_cost_sel cost) w = Inr (baseline i cost w)"
  using assms by (simp add: bind_def set_param_run call_cost_sel_run baseline_def Let_def)

lemma helper_run:
  assumes "norm_index d (length (params w)) = Some i"
    and "length (generators w) = length (params w)"
  shows "optimal_theta_and_gen_helper d cost w = Inr (helper_result i cost w)"
proof -
  define b where "b = baseline i cost w"
  define rX where "rX = candidate i cost (fst b) ''X'' (snd b)"
  define rY where "rY = candidate i cost (fst b) ''Y'' (snd rX)"
  define rZ where "rZ = candidate i cost (fst b) ''Z'' (snd rY)"
  have b: "set_param d 0 w = Inr ((), w\<lparr>params := (params w)[i := 0]\<rparr>)"
    using assms(1) by (rule set_param_run)
  have c: "call_cost_sel cost (w\<lparr>params := (params w)[i := 0]\<rparr>) = Inr (fst b, snd b)"
    by (simp add: call_cost_sel_run b_def baseline_def Let_def)
  have sX: "helper_step d cost (fst b) ''X'' None (snd b) = Inr (replace i ''X'' rX None, snd rX)"
    unfolding rX_def using assms by (intro helper_step_run) (simp_all add: b_def)
  have sY: "helper_step d cost (fst b) ''Y'' (replace i ''X'' rX None) (snd rX) =
              Inr (replace i ''Y'' rY (replace i ''X'' rX None), snd rY)"
    unfolding rY_def using assms
    by (intro helper_step_run) (simp_all add: b_def rX_def replace_def)
  have sZ: "helper_step d cost (fst b) ''Z'' (replace i ''Y'' rY (replace i ''X'' rX None)) (snd rY) =
              Inr (replace i ''Z'' rZ (replace i ''Y'' rY (replace i ''X'' rX None)), snd rZ)"
    unfolding rZ_def using assms
    by (intro helper_step_run) (simp_all add: b_def rX_def rY_def replace_def)
  have w: "replace i ''Z'' rZ (replace i ''Y'' rY (replace i ''X'' rX None)) =
             Some (fst (winner i rX rY rZ),
                   (if fst rZ \<le> (if fst rY \<le> fst rX then fst rY else fst rX) then fst rZ
                    else if fst rY \<le> fst rX then fst rY else fst rX),
                   snd (winner i rX rY rZ))"
    by (simp add: replace_def winner_def)
  have "optimal_theta_and_gen_helper d cost w = Inr (winner i rX rY rZ, snd rZ)"
    by (simp add: optimal_theta_and_gen_helper_def bind_def b c sX sY sZ w return_def
        case_prod_beta)
  then show ?thesis
    by (simp add: helper_result_def Let_def b_def rX_def rY_def rZ_def)
qed

lemma helper_result_simps [simp]:
  "length (params (snd (helper_result i cost w))) = length (params w)"
  "length (generators (snd (helper_result i cost w))) = length (generators w)"
  "ncalls (snd (helper_result i cost w)) = ncalls w + 10"
  "e \<noteq> i \<Longrightarrow> params (snd (helper_result i cost w)) ! e = params w ! e"
  "e \<noteq> i \<Longrightarrow> generators (snd (helper_result i cost w)) ! e = generators w ! e"
  by (simp_all add: helper_result_def Let_def)

lemma helper_result_Z:
  "i < length (generators w) \<Longrightarrow> generators (snd (helper_result i cost w)) ! i = ''Z''"
  by (simp add: helper_result_def Let_def)

lemma rotoselect_step_run:
  assumes "norm_index d (length (params w)) = Some i"
    and "length (generators w) = length (params w)"
  shows "rotoselect_step cost d w = Inr ((), step_result i cost w)"
proof -
  let ?r = "helper_result i cost w"
  have p: "norm_index d (length (params (snd ?r))) = Some i"
    using assms(1) by simp
  have g: "\<And>ps. norm_index d (length (generators ((snd ?r)\<lparr>params := ps\<rparr>))) = Some i"
    using assms by simp
  show ?thesis
    by (simp add: rotoselect_step_def bind_def helper_run[OF assms] case_prod_beta
        set_param_run[OF p] set_generator_run[OF g] step_result_def Let_def)
qed

lemma step_result_simps [simp]:
  "length (params (step_result i cost w)) = length (params w)"
  "length (generators (step_result i cost w)) = length (generators w)"
  "ncalls (step_result i cost w) = ncalls w + 10"
  "e \<noteq> i \<Longrightarrow> params (step_result i cost w) ! e = params w ! e"
  "e \<noteq> i \<Longrightarrow> generators (step_result i cost w) ! e = generators w ! e"
  by (simp_all add: step_result_def Let_def)

lemma winner_range:
  assumes "i < length (params w)"
  shows "- pi < fst (fst (helper_result i cost w)) \<and> fst (fst (helper_result i cost w)) \<le> pi"
proof -
  define b where "b = baseline i cost w"
  define rX where "rX = candidate i cost (fst b) ''X'' (snd b)"
  define rY where "rY = candidate i cost (fst b) ''Y'' (snd rX)"
  define rZ where "rZ = candidate i cost (fst b) ''Z'' (snd rY)"
  have X: "- pi < params (snd rX) ! i \<and> params (snd rX) ! i \<le> pi"
    unfolding rX_def using assms by (intro candidate_range) (simp add: b_def)
  have Y: "- pi < params (snd rY) ! i \<and> params (snd rY) ! i \<le> pi"
    unfolding rY_def using assms by (intro candidate_range) (simp add: b_def rX_def)
  have Z: "- pi < params (snd rZ) ! i \<and> params (snd rZ) ! i \<le> pi"
    unfolding rZ_def using assms by (intro candidate_range) (simp add: b_def rX_def rY_def)
  have "fst (helper_result i cost w) = winner i rX rY rZ"
    by (simp add: helper_result_def Let_def b_def rX_def rY_def rZ_def)
  then show ?thesis
    using X Y Z by (simp add: winner_def)
qed

lemma step_result_range:
  assumes "i < length (params w)"
  shows "- pi < params (step_result i cost w) ! i \<and> params (step_result i cost w) ! i \<le> pi"
  using winner_range[OF assms] assms by (simp add: step_result_def Let_def)

lemma opt_theta_result_simps [simp]:
  "length (params (opt_theta_result i cost w)) = length (params w)"
  "ncalls (opt_theta_result i cost w) = ncalls w + 3"
  "e \<noteq> i \<Longrightarrow> params (opt_theta_result i cost w) ! e = params w ! e"
  by (simp_all add: opt_theta_result_def Let_def)

lemma opt_theta_result_range:
  "i < length (params w) \<Longrightarrow>
   - pi < params (opt_theta_result i cost w) ! i \<and> params (opt_theta_result i cost w) ! i \<le> pi"
  using theta_star_range by (simp add: opt_theta_result_def Let_def)

lemma range_py_int: "range_py (int n) = map int [0..<n]"
  by (simp add: range_py_def)

lemma rotosolve_loop_run:
  assumes "\<forall>j\<in>set js. j < length (params w)"
  shows "\<exists>w'. for_loop (map int js) (\<lambda>d _. opt_theta d cost) () w = Inr ((), w') \<and>
           length (params w') = length (params w) \<and>
           ncalls w' = ncalls w + 3 * length js \<and>
           (\<forall>e. e \<notin> set js \<longrightarrow> params w' ! e = params w ! e) \<and>
           (\<forall>e\<in>set js. - pi < params w' ! e \<and> params w' ! e \<le> pi)"
  using assms
proof (induction js arbitrary: w)
  case Nil
  then show ?case by (simp add: return_def)
next
  case (Cons j js)
  let ?w1 = "opt_theta_result j cost w"
  have j: "j < length (params w)"
    using Cons.prems by simp
  have s: "opt_theta (int j) cost w = Inr ((), ?w1)"
    using j by (intro opt_theta_run norm_index_int)
  have "\<forall>k\<in>set js. k < length (params ?w1)"
    using Cons.prems by simp
  from Cons.IH [OF this] obtain w' where
    run: "for_loop (map int js) (\<lambda>d _. opt_theta d cost) () ?w1 = Inr ((), w')"
    and len: "length (params w') = length (params ?w1)"
    and calls: "ncalls w' = ncalls ?w1 + 3 * length js"
    and frame: "\<forall>e. e \<notin> set js \<longrightarrow> params w' ! e = params ?w1 ! e"
    and rng: "\<forall>e\<in>set js. - pi < params w' ! e \<and> params w' ! e \<le> pi"
    by blast
  have 1: "for_loop (map int (j # js)) (\<lambda>d _. opt_theta d cost) () w = Inr ((), w')"
    using s run by (simp add: bind_def)
  have 2: "length (params w') = length (params w)"
    using len by simp
  have 3: "ncalls w' = ncalls w + 3 * length (j # js)"
    using calls by simp
  have 4: "\<forall>e. e \<notin> set (j # js) \<longrightarrow> params w' ! e = params w ! e"
    using frame by simp
  have 5: "\<forall>e\<in>set (j # js). - pi < params w' ! e \<and> params w' ! e \<le> pi"
  proof
    fix e assume e: "e \<in> set (j # js)"
    show "- pi < params w' ! e \<and> params w' ! e \<le> pi"
    proof (cases "e \<in> set js")
      case True
      then show ?thesis using rng by blast
    next
      case False
      then have "e = j" using e by simp
      then show ?thesis
        using False frame opt_theta_result_range [OF j, of cost] by simp
    qed
  qed
  from 1 2 3 4 5 show ?case by blast
qed

lemma rotosolve_cycle_run:
  "\<exists>w'. rotosolve_cycle cost w = Inr (params w', w') \<and>
        length (params w') = length (params w) \<and>
        ncalls w' = ncalls w + 3 * length (params w) \<and>
        (\<forall>e<length (params w). - pi < params w' ! e \<and> params w' ! e \<le> pi)"
proof -
  have "\<forall>j\<in>set [0..<length (params w)]. j < length (params w)"
    by simp
  from rotosolve_loop_run [OF this, of cost] obtain w' where
    "for_loop (map int [0..<length (params w)]) (\<lambda>d _. opt_theta d cost) () w = Inr ((), w')"
    "length (params w') = length (params w)"
    "ncalls w' = ncalls w + 3 * length [0..<length (params w)]"
    "\<forall>e\<in>set [0..<length (params w)]. - pi < params w' ! e \<and> params w' ! e \<le> pi"
    by blast
  then show ?thesis
    by (intro exI [of _ w']) (simp add: rotosolve_cycle_def range_py_int bind_def)
qed

lemma rotoselect_loop_run:
  assumes "length (generators w) = length (params w)"
    and "\<forall>j\<in>set js. j < length (params w)"
  shows "\<exists>w'. for_loop (map int js) (\<lambda>d _. rotoselect_step cost d) () w = Inr ((), w') \<and>
           length (params w') = length (params w) \<and>
           length (generators w') = length (generators w) \<and>
           ncalls w' = ncalls w + 10 * length js \<and>
           (\<forall>e. e \<notin> set js \<longrightarrow> params w' ! e = params w ! e \<and> generators w' ! e = generators w ! e) \<and>
           (\<forall>e\<in>set js. - pi < params w' ! e \<and> params w' ! e \<le> pi)"
  using assms
proof (induction js arbitrary: w)
  case Nil
  then show ?case by (simp add: return_def)
next
  case (Cons j js)
  let ?w1 = "step_result j cost w"
  have j: "j < length (params w)"
    using Cons.prems by simp
  have s: "rotoselect_step cost (int j) w = Inr ((), ?w1)"
    using j Cons.prems(1) by (intro rotoselect_step_run norm_index_int)
  have "length (generators ?w1) = length (params ?w1)" "\<forall>k\<in>set js. k < length (params ?w1)"
    using Cons.prems by simp_all
  from Cons.IH [OF this] obtain w' where
    run: "for_loop (map int js) (\<lambda>d _. rotoselect_step cost d) () ?w1 = Inr ((), w')"
    and len: "length (params w') = length (params ?w1)"
    and glen: "length (generators w') = length (generators ?w1)"
    and calls: "ncalls w' = ncalls ?w1 + 10 * length js"
    and frame: "\<forall>e. e \<notin> set js \<longrightarrow>
                  params w' ! e = params ?w1 ! e \<and> generators w' ! e = generators ?w1 ! e"
    and rng: "\<forall>e\<in>set js. - pi < params w' ! e \<and> params w' ! e \<le> pi"
    by blast
  have 1: "for_loop (map int (j # js)) (\<lambda>d _. rotoselect_step cost d) () w = Inr ((), w')"
    using s run by (simp add: bind_def)
  have 2: "length (params w') = length (params w)" "length (generators w') = length (generators w)"
    using len glen by simp_all
  have 3: "ncalls w' = ncalls w + 10 * length (j # js)"
    using calls by simp
  have 4: "\<forall>e. e \<notin> set (j # js) \<longrightarrow>
              params w' ! e = params w ! e \<and> generators w' ! e = generators w ! e"
    using frame by simp
  have 5: "\<forall>e\<in>set (j # js). - pi < params w' ! e \<and> params w' ! e \<le> pi"
  proof
    fix e assume e: "e \<in> set (j # js)"
    show "- pi < params w' ! e \<and> params w' ! e \<le> pi"
    proof (cases "e \<in> set js")
      case True
      then show ?thesis using rng by blast
    next
      case False
      then have "e = j" using e by simp
      then show ?thesis
        using False frame step_result_range [OF j, of cost] by simp
    qed
  qed
  from 1 2 3 4 5 show ?case by blast
qed

lemma rotoselect_cycle_run:
  assumes "length (generators w) = length (params w)"
  shows "\<exists>w'. rotoselect_cycle cost w = Inr ((params w', generators w'), w') \<and>
        length (params w') = length (params w) \<and>
        length (generators w') = length (generators w) \<and>
        ncalls w' = ncalls w + 10 * length (params w) \<and>
        (\<forall>e<length (params w). - pi < params w' ! e \<and> params w' ! e \<le> pi)"
proof -
  have "\<forall>j\<in>set [0..<length (params w)]. j < length (params w)"
    by simp
  from rotoselect_loop_run [OF assms this, of cost] obtain w' where
    "for_loop (map int [0..<length (params w)]) (\<lambda>d _. rotoselect_step cost d) () w = Inr ((), w')"
    "length (params w') = length (params w)"
    "length (generators w') = length (generators w)"
    "ncalls w' = ncalls w + 10 * length [0..<length (params w)]"
    "\<forall>e\<in>set [0..<length (params w)]. - pi < params w' ! e \<and> params w' ! e \<le> pi"
    by blast
  then show ?thesis
    by (intro exI [of _ w']) (simp add: rotoselect_cycle_def range_py_int bind_def)
qed

lemma upt_split_at: "d < n \<Longrightarrow> [0..<n] = [0..<d] @ d # [Suc d..<n]"
  by (metis le_add1 le_add_same_cancel1 less_imp_add_positive upt_add_eq_append upt_conv_Cons)

lemma rotoselect_cycle_split:
  assumes "d < length (params w)"
    and "for_loop (map int [0..<d]) (\<lambda>d _. rotoselect_step cost d) () w = Inr ((), w1)"
    and "rotoselect_step cost (int d) w1 = Inr ((), w1')"
    and "for_loop (map int [Suc d..<length (params w)]) (\<lambda>d _. rotoselect_step cost d) () w1' =
           Inr ((), w2)"
  shows "rotoselect_cycle cost w = Inr ((params w2, generators w2), w2)"
  using assms(2-4)
  by (simp add: rotoselect_cycle_def range_py_int upt_split_at [OF assms(1)] for_loop_append bind_def)

lemma for_loop_snoc: "for_loop (xs @ [x]) body acc = bind (for_loop xs body acc) (body x)"
proof -
  have "for_loop [x] body = body x"
    by (auto simp: bind_def return_def fun_eq_iff split: sum.splits)
  then show ?thesis
    by (simp add: for_loop_append)
qed

lemma costs_rotosolve_Suc:
  "costs_rotosolve cost (int (Suc n)) =
     bind (costs_rotosolve cost (int n))
       (\<lambda>costs. bind (call_cost cost) (\<lambda>c. bind (rotosolve_cycle cost) (\<lambda>_. return (costs @ [c]))))"
  unfolding costs_rotosolve_def range_py_int by (simp add: for_loop_snoc)

lemma costs_rsel_Suc:
  "costs_rsel cost (int (Suc n)) =
     bind (costs_rsel cost (int n))
       (\<lambda>costs. bind (call_cost_sel cost) (\<lambda>c. bind (rotoselect_cycle cost) (\<lambda>_. return (costs @ [c]))))"
  unfolding costs_rsel_def range_py_int by (simp add: for_loop_snoc)

lemma costs_rotosolve_run:
  "\<exists>traj w'. costs_rotosolve cost (int n) w = Inr (traj, w') \<and>
      length traj = n \<and>
      length (params w') = length (params w) \<and>
      ncalls w' = ncalls w + n * (1 + 3 * length (params w)) \<and>
      (\<forall>i<n. \<exists>tr wi. costs_rotosolve cost (int i) w = Inr (tr, wi) \<and>
                traj ! i = fst (cost (ostate wi) (params wi)))"
proof (induction n)
  case 0
  show ?case
    by (simp add: costs_rotosolve_def range_py_def return_def)
next
  case (Suc n)
  then obtain traj w' where
    run: "costs_rotosolve cost (int n) w = Inr (traj, w')"
    and len: "length traj = n"
    and plen: "length (params w') = length (params w)"
    and calls: "ncalls w' = ncalls w + n * (1 + 3 * length (params w))"
    and ent: "\<forall>i<n. \<exists>tr wi. costs_rotosolve cost (int i) w = Inr (tr, wi) \<and>
                traj ! i = fst (cost (ostate wi) (params wi))"
    by blast
  define c where "c = fst (cost (ostate w') (params w'))"
  define w'' where "w'' = w'\<lparr>ostate := snd (cost (ostate w') (params w')), ncalls := Suc (ncalls w')\<rparr>"
  have call: "call_cost cost w' = Inr (c, w'')"
    by (simp add: call_cost_run c_def w''_def)
  from rotosolve_cycle_run [of cost w''] obtain w3 where
    cyc: "rotosolve_cycle cost w'' = Inr (params w3, w3)"
    and plen3: "length (params w3) = length (params w'')"
    and calls3: "ncalls w3 = ncalls w'' + 3 * length (params w'')"
    by blast
  have 1: "costs_rotosolve cost (int (Suc n)) w = Inr (traj @ [c], w3)"
    by (subst costs_rotosolve_Suc) (simp add: bind_def run call cyc return_def)
  have 2: "length (traj @ [c]) = Suc n"
    using len by simp
  have 3: "length (params w3) = length (params w)"
    using plen3 plen by (simp add: w''_def)
  have 4: "ncalls w3 = ncalls w + Suc n * (1 + 3 * length (params w))"
    using calls3 calls plen by (simp add: w''_def)
  have 5: "\<forall>i<Suc n. \<exists>tr wi. costs_rotosolve cost (int i) w = Inr (tr, wi) \<and>
                (traj @ [c]) ! i = fst (cost (ostate wi) (params wi))"
  proof (intro allI impI)
    fix i assume "i < Suc n"
    show "\<exists>tr wi. costs_rotosolve cost (int i) w = Inr (tr, wi) \<and>
                (traj @ [c]) ! i = fst (cost (ostate wi) (params wi))"
    proof (cases "i < n")
      case True
      then show ?thesis using ent len by (simp add: nth_append)
    next
      case False
      then have "i = n" using \<open>i < Suc n\<close> by simp
      then show ?thesis using run len by (simp add: nth_append c_def)
    qed
  qed
  from 1 2 3 4 5 show ?case by blast
qed

lemma costs_rsel_run:
  assumes "length (generators w) = length (params w)"
  shows "\<exists>traj w'. costs_rsel cost (int n) w = Inr (traj, w') \<and>
      length traj = n \<and>
      length (params w') = length (params w) \<and>
      length (generators w') = length (generators w) \<and>
      ncalls w' = ncalls w + n * (1 + 10 * length (params w)) \<and>
      (\<forall>i<n. \<exists>tr wi. costs_rsel cost (int i) w = Inr (tr, wi) \<and>
                traj ! i = fst (cost (ostate wi) (params wi) (generators wi)))"
proof (induction n)
  case 0
  show ?case
    by (simp add: costs_rsel_def range_py_def return_def)
next
  case (Suc n)
  then obtain traj w' where
    run: "costs_rsel cost (int n) w = Inr (traj, w')"
    and len: "length traj = n"
    and plen: "length (params w') = length (params w)"
    and glen: "length (generators w') = length (generators w)"
    and calls: "ncalls w' = ncalls w + n * (1 + 10 * length (params w))"
    and ent: "\<forall>i<n. \<exists>tr wi. costs_rsel cost (int i) w = Inr (tr, wi) \<and>
                traj ! i = fst (cost (ostate wi) (params wi) (generators wi))"
    by blast
  define c where "c = fst (cost (ostate w') (params w') (generators w'))"
  define w'' where "w'' = w'\<lparr>ostate := snd (cost (ostate w') (params w') (generators w')),
                              ncalls := Suc (ncalls w')\<rparr>"
  have call: "call_cost_sel cost w' = Inr (c, w'')"
    by (simp add: call_cost_sel_run c_def w''_def)
  have "length (generators w'') = length (params w'')"
    using assms plen glen by (simp add: w''_def)
  from rotoselect_cycle_run [OF this, of cost] obtain w3 where
    cyc: "rotoselect_cycle cost w'' = Inr ((params w3, generators w3), w3)"
    and plen3: "length (params w3) = length (params w'')"
    and glen3: "length (generators w3) = length (generators w'')"
    and calls3: "ncalls w3 = ncalls w'' + 10 * length (params w'')"
    by blast
  have 1: "costs_rsel cost (int (Suc n)) w = Inr (traj @ [c], w3)"
    by (subst costs_rsel_Suc) (simp add: bind_def run call cyc return_def)
  have 2: "length (traj @ [c]) = Suc n"
    using len by simp
  have 3: "length (params w3) = length (params w)" "length (generators w3) = length (generators w)"
    using plen3 plen glen3 glen by (simp_all add: w''_def)
  have 4: "ncalls w3 = ncalls w + Suc n * (1 + 10 * length (params w))"
    using calls3 calls plen by (simp add: w''_def)
  have 5: "\<forall>i<Suc n. \<exists>tr wi. costs_rsel cost (int i) w = Inr (tr, wi) \<and>
                (traj @ [c]) ! i = fst (cost (ostate wi) (params wi) (generators wi))"
  proof (intro allI impI)
    fix i assume "i < Suc n"
    show "\<exists>tr wi. costs_rsel cost (int i) w = Inr (tr, wi) \<and>
                (traj @ [c]) ! i = fst (cost (ostate wi) (params wi) (generators wi))"
    proof (cases "i < n")
      case True
      then show ?thesis using ent len by (simp add: nth_append)
    next
      case False
      then have "i = n" using \<open>i < Suc n\<close> by simp
      then show ?thesis using run len by (simp add: nth_append c_def)
    qed
  qed
  from 1 2 3 4 5 show ?case by blast
qed

section \<open>The claims\<close>

subsection \<open>C1: The update rule\<close>

text \<open>
  C1. For every index \<open>d\<close> in \<open>[0, D)\<close>, parameter vector and cost oracle, the update rule
  evaluates the oracle with \<open>params[d]\<close> set to \<open>0\<close>, \<open>\<pi>/2\<close> and \<open>-\<pi>/2\<close> in that order, every
  other entry as it was (in \<open>rotosolve\<close> the value at \<open>0\<close> is the argument \<open>M_0\<close>), computes
  \<open>a = arctan2 (2 M0 - M_plus - M_minus) (M_plus - M_minus)\<close>, and commits \<open>-\<pi>/2 - a\<close> to
  \<open>params[d]\<close>, plus \<open>2\<pi>\<close> exactly when \<open>-\<pi>/2 - a \<le> -\<pi>\<close>. The equations give the whole final
  state of \<open>opt_theta\<close> and of \<open>rotosolve\<close>, which also returns the cost at the committed
  angle.
\<close>

theorem update_rule_closed_form:
  assumes "0 \<le> d" and "d < int (length (params w))" and "d < int (length (params v))"
  shows "opt_theta d cost w =
           (let ps = params w; i = nat d;
                r0 = cost (ostate w) (ps[i := 0]);
                rp = cost (snd r0) (ps[i := pi / 2]);
                rm = cost (snd rp) (ps[i := - pi / 2]);
                a = arctan2 (2 * fst r0 - fst rp - fst rm) (fst rp - fst rm);
                t = - pi / 2 - a
            in Inr ((), w\<lparr>params := ps[i := (if t \<le> - pi then t + 2 * pi else t)],
                           ostate := snd rm, ncalls := ncalls w + 3\<rparr>)) \<and>
         rotosolve d cost' M_0 v =
           (let ps = params v; gs = generators v; i = nat d;
                rp = cost' (ostate v) (ps[i := pi / 2]) gs;
                rm = cost' (snd rp) (ps[i := - pi / 2]) gs;
                a = arctan2 (2 * M_0 - fst rp - fst rm) (fst rp - fst rm);
                t = - pi / 2 - a;
                rc = cost' (snd rm) (ps[i := (if t \<le> - pi then t + 2 * pi else t)]) gs
            in Inr (fst rc, v\<lparr>params := ps[i := (if t \<le> - pi then t + 2 * pi else t)],
                             ostate := snd rc, ncalls := ncalls v + 3\<rparr>))"
proof -
  have w: "norm_index d (length (params w)) = Some (nat d)"
    using assms(1,2) by (rule norm_index_nonneg)
  have v: "norm_index d (length (params v)) = Some (nat d)"
    using assms(1,3) by (rule norm_index_nonneg)
  show ?thesis
    by (simp add: opt_theta_run [OF w] rotosolve_run [OF v] opt_theta_result_def sel_probe_def
        theta_star_def Let_def)
qed

theorem update_rule_closed_form_witness:
  "(0::int) \<le> 0 \<and> (0::int) < int (length [3 / 10, 1 / 4 :: real]) \<and>
   opt_theta 0 (deterministic (\<lambda>ps. sin (ps ! 0)))
       \<lparr>params = [3 / 10, 1 / 4], ostate = (), ncalls = 0\<rparr>
     = Inr ((), \<lparr>params = [- pi / 2, 1 / 4], ostate = (), ncalls = 3\<rparr>) \<and>
   rotosolve 0 (\<lambda>s ps gs. (sin (ps ! 0), s)) 0
       \<lparr>params = [3 / 10, 1 / 4], ostate = (), ncalls = 1, generators = [''X'', ''Y'']\<rparr>
     = Inr (- 1, \<lparr>params = [- pi / 2, 1 / 4], ostate = (), ncalls = 4, generators = [''X'', ''Y'']\<rparr>)"
  using update_rule_closed_form [of 0 "\<lparr>params = [3 / 10, 1 / 4], ostate = (), ncalls = 0\<rparr>"
      "\<lparr>params = [3 / 10, 1 / 4], ostate = (), ncalls = 1, generators = [''X'', ''Y'']\<rparr>"
      "deterministic (\<lambda>ps. sin (ps ! 0))" "\<lambda>s ps gs. (sin (ps ! 0), s)" 0]
  by (simp add: deterministic_def arctan2_def Let_def)

subsection \<open>C2: Evaluation budget of a Rotoselect cycle\<close>

text \<open>
  C2 does not hold of the code. Each of the three candidate runs of \<open>rotosolve\<close> ends with an
  evaluation of the cost at the angle it committed, so an index costs \<open>1 + 3 \<times> 3 = 10\<close>
  invocations, not 7. On a one-entry vector and the constant oracle one cycle takes the
  counter from 0 to 10 (and, the three costs being equal, selects Z).
\<close>

theorem rotoselect_cycle_budget_counterexample:
  "rotoselect_cycle (\<lambda>s ps gs. (0, s))
       \<lparr>params = [3 / 10], ostate = (), ncalls = 0, generators = [''X'']\<rparr>
     = Inr (([- pi / 2], [''Z'']),
            \<lparr>params = [- pi / 2], ostate = (), ncalls = 10, generators = [''Z'']\<rparr>)"
  by (simp add: rotoselect_cycle_def range_py_def bind_def return_def
      rotoselect_step_run [where i = 0] norm_index_def step_result_def helper_result_def
      baseline_def candidate_def sel_probe_def winner_def theta_star_def arctan2_def Let_def)

text \<open>
  C2, amended: for every parameter vector of length \<open>D\<close> and generator assignment of the
  same length, one RotoselectCycle performs exactly 10 cost-oracle calls per index, \<open>10 D\<close>
  in all: 1 shared baseline evaluation at \<open>params[d] = 0\<close> plus, for each of the 3 candidate
  generators, 2 probe evaluations and 1 evaluation of the cost at the committed angle.
\<close>

theorem rotoselect_cycle_budget:
  assumes "length (generators w) = length (params w)"
  shows "(\<forall>d<length (params w).
            \<exists>M_0 w0 cX wX cY wY cZ wZ w'.
              bind (set_param (int d) 0) (\<lambda>_. call_cost_sel cost) w = Inr (M_0, w0) \<and>
              ncalls w0 = ncalls w + 1 \<and>
              bind (set_generator (int d) ''X'') (\<lambda>_. rotosolve (int d) cost M_0) w0 = Inr (cX, wX) \<and>
              ncalls wX = ncalls w0 + 3 \<and>
              bind (set_generator (int d) ''Y'') (\<lambda>_. rotosolve (int d) cost M_0) wX = Inr (cY, wY) \<and>
              ncalls wY = ncalls wX + 3 \<and>
              bind (set_generator (int d) ''Z'') (\<lambda>_. rotosolve (int d) cost M_0) wY = Inr (cZ, wZ) \<and>
              ncalls wZ = ncalls wY + 3 \<and>
              rotoselect_step cost (int d) w = Inr ((), w') \<and>
              ncalls w' = ncalls wZ \<and> ncalls w' = ncalls w + 10) \<and>
         (\<exists>r w'. rotoselect_cycle cost w = Inr (r, w') \<and>
            ncalls w' = ncalls w + 10 * length (params w))"
proof (intro conjI allI impI)
  fix d assume d: "d < length (params w)"
  define b where "b = baseline d cost w"
  define rX where "rX = candidate d cost (fst b) ''X'' (snd b)"
  define rY where "rY = candidate d cost (fst b) ''Y'' (snd rX)"
  define rZ where "rZ = candidate d cost (fst b) ''Z'' (snd rY)"
  have idx: "norm_index (int d) (length (params w)) = Some d"
    using d by (rule norm_index_int)
  have ib: "norm_index (int d) (length (params (snd b))) = Some d"
    and eb: "length (generators (snd b)) = length (params (snd b))"
    using idx assms by (simp_all add: b_def)
  have iX: "norm_index (int d) (length (params (snd rX))) = Some d"
    and eX: "length (generators (snd rX)) = length (params (snd rX))"
    using ib eb by (simp_all add: rX_def)
  have iY: "norm_index (int d) (length (params (snd rY))) = Some d"
    and eY: "length (generators (snd rY)) = length (params (snd rY))"
    using iX eX by (simp_all add: rY_def)
  have 1: "bind (set_param (int d) 0) (\<lambda>_. call_cost_sel cost) w = Inr (fst b, snd b)"
    by (simp add: baseline_run [OF idx] b_def)
  have 2: "bind (set_generator (int d) ''X'') (\<lambda>_. rotosolve (int d) cost (fst b)) (snd b) =
             Inr (fst rX, snd rX)"
    by (simp add: candidate_run [OF ib eb] rX_def)
  have 3: "bind (set_generator (int d) ''Y'') (\<lambda>_. rotosolve (int d) cost (fst b)) (snd rX) =
             Inr (fst rY, snd rY)"
    by (simp add: candidate_run [OF iX eX] rY_def)
  have 4: "bind (set_generator (int d) ''Z'') (\<lambda>_. rotosolve (int d) cost (fst b)) (snd rY) =
             Inr (fst rZ, snd rZ)"
    by (simp add: candidate_run [OF iY eY] rZ_def)
  have n: "ncalls (snd b) = ncalls w + 1" "ncalls (snd rX) = ncalls (snd b) + 3"
    "ncalls (snd rY) = ncalls (snd rX) + 3" "ncalls (snd rZ) = ncalls (snd rY) + 3"
    by (simp_all add: b_def rX_def rY_def rZ_def)
  have 5: "rotoselect_step cost (int d) w = Inr ((), step_result d cost w)"
    using idx assms by (rule rotoselect_step_run)
  have 6: "ncalls (step_result d cost w) = ncalls (snd rZ)"
    by (simp add: step_result_def helper_result_def Let_def b_def rX_def rY_def rZ_def)
  have 7: "ncalls (step_result d cost w) = ncalls w + 10"
    by simp
  from 1 2 3 4 n 5 6 7
  show "\<exists>M_0 w0 cX wX cY wY cZ wZ w'.
              bind (set_param (int d) 0) (\<lambda>_. call_cost_sel cost) w = Inr (M_0, w0) \<and>
              ncalls w0 = ncalls w + 1 \<and>
              bind (set_generator (int d) ''X'') (\<lambda>_. rotosolve (int d) cost M_0) w0 = Inr (cX, wX) \<and>
              ncalls wX = ncalls w0 + 3 \<and>
              bind (set_generator (int d) ''Y'') (\<lambda>_. rotosolve (int d) cost M_0) wX = Inr (cY, wY) \<and>
              ncalls wY = ncalls wX + 3 \<and>
              bind (set_generator (int d) ''Z'') (\<lambda>_. rotosolve (int d) cost M_0) wY = Inr (cZ, wZ) \<and>
              ncalls wZ = ncalls wY + 3 \<and>
              rotoselect_step cost (int d) w = Inr ((), w') \<and>
              ncalls w' = ncalls wZ \<and> ncalls w' = ncalls w + 10"
    by blast
next
  show "\<exists>r w'. rotoselect_cycle cost w = Inr (r, w') \<and>
            ncalls w' = ncalls w + 10 * length (params w)"
    using rotoselect_cycle_run [OF assms, of cost] by blast
qed

theorem rotoselect_cycle_budget_witness:
  "length [''X'', ''Y''] = length [3 / 10, 1 / 4 :: real] \<and>
   (\<exists>w'. rotoselect_step (\<lambda>s ps gs. (sin (ps ! 0) + cos (ps ! 1), ())) 1
            \<lparr>params = [3 / 10, 1 / 4], ostate = (), ncalls = 0, generators = [''X'', ''Y'']\<rparr>
          = Inr ((), w') \<and> ncalls w' = 10) \<and>
   (\<exists>r w'. rotoselect_cycle (\<lambda>s ps gs. (sin (ps ! 0) + cos (ps ! 1), ()))
            \<lparr>params = [3 / 10, 1 / 4], ostate = (), ncalls = 0, generators = [''X'', ''Y'']\<rparr>
          = Inr (r, w') \<and> ncalls w' = 20)"
proof -
  let ?cost = "\<lambda>(s::unit) (ps::real list) (gs::string list). (sin (ps ! 0) + cos (ps ! 1), ())"
  let ?w = "\<lparr>params = [3 / 10, 1 / 4], ostate = (), ncalls = 0, generators = [''X'', ''Y'']\<rparr>"
  have eq: "length (generators ?w) = length (params ?w)"
    by simp
  note th = rotoselect_cycle_budget [OF eq, of ?cost]
  from th have "\<exists>w'. rotoselect_step ?cost (int 1) ?w = Inr ((), w') \<and> ncalls w' = ncalls ?w + 10"
    by (elim conjE allE [of _ 1]) (simp, blast)
  moreover from th have "\<exists>r w'. rotoselect_cycle ?cost ?w = Inr (r, w') \<and>
      ncalls w' = ncalls ?w + 10 * length (params ?w)"
    by (rule conjunct2)
  ultimately show ?thesis
    by simp
qed

subsection \<open>C3: Evaluation budget of the update rule\<close>




subsection \<open>C4: Tie-break\<close>

text \<open>
  C4. In the generator search at index \<open>d\<close>, after the shared baseline \<open>M_0\<close> the candidates
  X, Y, Z are run in that order, with costs \<open>cX\<close>, \<open>cY\<close>, \<open>cZ\<close>. The step for X makes X the
  incumbent, bound or not before; the step for Y (for Z) replaces any incumbent of cost
  \<open>c0\<close> exactly when \<open>cY \<le> c0\<close> (\<open>cZ \<le> c0\<close>), and keeps it otherwise. So the helper returns Z
  when \<open>cZ\<close> is at most the smaller of the other two, else Y when \<open>cY \<le> cX\<close>, else X; and
  when the three costs are equal the generator the cycle selects for the index is Z.
\<close>

theorem tie_break_policy:
  assumes "length (generators w) = length (params w)" and "0 \<le> d" and "d < int (length (params w))"
  shows "\<exists>M_0 w0 cX wX cY wY cZ wZ.
      bind (set_param d 0) (\<lambda>_. call_cost_sel cost) w = Inr (M_0, w0) \<and>
      bind (set_generator d ''X'') (\<lambda>_. rotosolve d cost M_0) w0 = Inr (cX, wX) \<and>
      bind (set_generator d ''Y'') (\<lambda>_. rotosolve d cost M_0) wX = Inr (cY, wY) \<and>
      bind (set_generator d ''Z'') (\<lambda>_. rotosolve d cost M_0) wY = Inr (cZ, wZ) \<and>
      (\<forall>opt. helper_step d cost M_0 ''X'' opt w0 = Inr (Some (params wX ! nat d, cX, ''X''), wX)) \<and>
      (\<forall>p0 c0 g0. helper_step d cost M_0 ''Y'' (Some (p0, c0, g0)) wX =
         Inr (if cY \<le> c0 then Some (params wY ! nat d, cY, ''Y'') else Some (p0, c0, g0), wY)) \<and>
      (\<forall>p0 c0 g0. helper_step d cost M_0 ''Z'' (Some (p0, c0, g0)) wY =
         Inr (if cZ \<le> c0 then Some (params wZ ! nat d, cZ, ''Z'') else Some (p0, c0, g0), wZ)) \<and>
      optimal_theta_and_gen_helper d cost w =
        Inr (if cZ \<le> (if cY \<le> cX then cY else cX) then (params wZ ! nat d, ''Z'')
             else if cY \<le> cX then (params wY ! nat d, ''Y'')
             else (params wX ! nat d, ''X''), wZ) \<and>
      (cX = cY \<and> cY = cZ \<longrightarrow>
         (\<exists>w'. rotoselect_step cost d w = Inr ((), w') \<and> generators w' ! nat d = ''Z''))"
proof -
  define i where "i = nat d"
  define b where "b = baseline i cost w"
  define rX where "rX = candidate i cost (fst b) ''X'' (snd b)"
  define rY where "rY = candidate i cost (fst b) ''Y'' (snd rX)"
  define rZ where "rZ = candidate i cost (fst b) ''Z'' (snd rY)"
  have idx: "norm_index d (length (params w)) = Some i"
    unfolding i_def using assms(2,3) by (rule norm_index_nonneg)
  have il: "i < length (params w)"
    using idx by (rule norm_index_less)
  have ib: "norm_index d (length (params (snd b))) = Some i"
    and eb: "length (generators (snd b)) = length (params (snd b))"
    using idx assms(1) by (simp_all add: b_def)
  have iX: "norm_index d (length (params (snd rX))) = Some i"
    and eX: "length (generators (snd rX)) = length (params (snd rX))"
    using ib eb by (simp_all add: rX_def)
  have iY: "norm_index d (length (params (snd rY))) = Some i"
    and eY: "length (generators (snd rY)) = length (params (snd rY))"
    using iX eX by (simp_all add: rY_def)
  have 1: "bind (set_param d 0) (\<lambda>_. call_cost_sel cost) w = Inr (fst b, snd b)"
    by (simp add: baseline_run [OF idx] b_def)
  have 2: "bind (set_generator d ''X'') (\<lambda>_. rotosolve d cost (fst b)) (snd b) = Inr (fst rX, snd rX)"
    by (simp add: candidate_run [OF ib eb] rX_def)
  have 3: "bind (set_generator d ''Y'') (\<lambda>_. rotosolve d cost (fst b)) (snd rX) = Inr (fst rY, snd rY)"
    by (simp add: candidate_run [OF iX eX] rY_def)
  have 4: "bind (set_generator d ''Z'') (\<lambda>_. rotosolve d cost (fst b)) (snd rY) = Inr (fst rZ, snd rZ)"
    by (simp add: candidate_run [OF iY eY] rZ_def)
  have 5: "\<forall>opt. helper_step d cost (fst b) ''X'' opt (snd b) =
         Inr (Some (params (snd rX) ! i, fst rX, ''X''), snd rX)"
    by (simp add: helper_step_run [OF ib eb] replace_def rX_def)
  have 6: "\<forall>p0 c0 g0. helper_step d cost (fst b) ''Y'' (Some (p0, c0, g0)) (snd rX) =
         Inr (if fst rY \<le> c0 then Some (params (snd rY) ! i, fst rY, ''Y'') else Some (p0, c0, g0), snd rY)"
    by (simp add: helper_step_run [OF iX eX] replace_def rY_def)
  have 7: "\<forall>p0 c0 g0. helper_step d cost (fst b) ''Z'' (Some (p0, c0, g0)) (snd rY) =
         Inr (if fst rZ \<le> c0 then Some (params (snd rZ) ! i, fst rZ, ''Z'') else Some (p0, c0, g0), snd rZ)"
    by (simp add: helper_step_run [OF iY eY] replace_def rZ_def)
  have hr: "helper_result i cost w = (winner i rX rY rZ, snd rZ)"
    by (simp add: helper_result_def Let_def b_def rX_def rY_def rZ_def)
  have 8: "optimal_theta_and_gen_helper d cost w =
        Inr (if fst rZ \<le> (if fst rY \<le> fst rX then fst rY else fst rX) then (params (snd rZ) ! i, ''Z'')
             else if fst rY \<le> fst rX then (params (snd rY) ! i, ''Y'')
             else (params (snd rX) ! i, ''X''), snd rZ)"
    by (simp add: helper_run [OF idx assms(1)] hr winner_def)
  have 9: "fst rX = fst rY \<and> fst rY = fst rZ \<longrightarrow>
         (\<exists>w'. rotoselect_step cost d w = Inr ((), w') \<and> generators w' ! i = ''Z'')"
  proof
    assume tie: "fst rX = fst rY \<and> fst rY = fst rZ"
    have "generators (step_result i cost w) ! i = ''Z''"
      using tie il assms(1) by (simp add: step_result_def hr winner_def rZ_def rY_def rX_def b_def)
    then show "\<exists>w'. rotoselect_step cost d w = Inr ((), w') \<and> generators w' ! i = ''Z''"
      using rotoselect_step_run [OF idx assms(1), of cost] by simp
  qed
  from 1 2 3 4 5 6 7 8 9 show ?thesis
    unfolding i_def by blast
qed

theorem tie_break_policy_witness:
  "length [''X'', ''Y''] = length [3 / 10, 1 / 4 :: real] \<and> (0::int) \<le> 1 \<and>
   (1::int) < int (length [3 / 10, 1 / 4 :: real]) \<and>
   (\<exists>p wZ. optimal_theta_and_gen_helper 1 (\<lambda>s ps gs. (sin (ps ! 0), ()))
              \<lparr>params = [3 / 10, 1 / 4], ostate = (), ncalls = 0, generators = [''X'', ''Y'']\<rparr>
            = Inr ((p, ''Z''), wZ)) \<and>
   (\<exists>w'. rotoselect_step (\<lambda>s ps gs. (sin (ps ! 0), ())) 1
              \<lparr>params = [3 / 10, 1 / 4], ostate = (), ncalls = 0, generators = [''X'', ''Y'']\<rparr>
            = Inr ((), w') \<and> generators w' ! 1 = ''Z'')"
proof -
  let ?cost = "\<lambda>(s::unit) (ps::real list) (gs::string list). (sin (ps ! 0), ())"
  let ?w = "\<lparr>params = [3 / 10, 1 / 4], ostate = (), ncalls = 0, generators = [''X'', ''Y'']\<rparr>"
  have "length (generators ?w) = length (params ?w)" "(0::int) \<le> 1" "1 < int (length (params ?w))"
    by simp_all
  from tie_break_policy [OF this, of ?cost] show ?thesis
  proof (elim exE conjE)
    fix M_0 w0 cX wX cY wY cZ wZ
    assume a: "bind (set_param 1 0) (\<lambda>_. call_cost_sel ?cost) ?w = Inr (M_0, w0)"
      and b: "bind (set_generator 1 ''X'') (\<lambda>_. rotosolve 1 ?cost M_0) w0 = Inr (cX, wX)"
      and c: "bind (set_generator 1 ''Y'') (\<lambda>_. rotosolve 1 ?cost M_0) wX = Inr (cY, wY)"
      and d: "bind (set_generator 1 ''Z'') (\<lambda>_. rotosolve 1 ?cost M_0) wY = Inr (cZ, wZ)"
      and h: "optimal_theta_and_gen_helper 1 ?cost ?w =
          Inr (if cZ \<le> (if cY \<le> cX then cY else cX) then (params wZ ! nat 1, ''Z'')
               else if cY \<le> cX then (params wY ! nat 1, ''Y'')
               else (params wX ! nat 1, ''X''), wZ)"
      and t: "cX = cY \<and> cY = cZ \<longrightarrow>
           (\<exists>w'. rotoselect_step ?cost 1 ?w = Inr ((), w') \<and> generators w' ! nat 1 = ''Z'')"
    have n: "\<And>v::unit sel_world. length (params v) = 2 \<Longrightarrow> norm_index 1 (length (params v)) = Some 1"
      by (simp add: norm_index_def)
    have cand: "\<And>M g (v::unit sel_world). fst (candidate 1 ?cost M g v) = sin (params v ! 0)"
      by (simp add: candidate_def sel_probe_def Let_def)
    have "Inr (baseline 1 ?cost ?w) = Inr (M_0, w0)"
      using a baseline_run [of 1 ?w 1 ?cost] by (simp add: norm_index_def)
    then have w0: "w0 = snd (baseline 1 ?cost ?w)"
      by simp
    have l0: "length (params w0) = 2" "length (generators w0) = length (params w0)"
      unfolding w0 by simp_all
    have "Inr (candidate 1 ?cost M_0 ''X'' w0) = Inr (cX, wX)"
      using b candidate_run [OF n [OF l0(1)] l0(2), of "''X''" ?cost M_0] by simp
    then have X: "cX = fst (candidate 1 ?cost M_0 ''X'' w0)" "wX = snd (candidate 1 ?cost M_0 ''X'' w0)"
      by simp_all
    have lX: "length (params wX) = 2" "length (generators wX) = length (params wX)"
      "params wX ! 0 = params w0 ! 0"
      unfolding X using l0 by simp_all
    have "Inr (candidate 1 ?cost M_0 ''Y'' wX) = Inr (cY, wY)"
      using c candidate_run [OF n [OF lX(1)] lX(2), of "''Y''" ?cost M_0] by simp
    then have Y: "cY = fst (candidate 1 ?cost M_0 ''Y'' wX)" "wY = snd (candidate 1 ?cost M_0 ''Y'' wX)"
      by simp_all
    have lY: "length (params wY) = 2" "length (generators wY) = length (params wY)"
      "params wY ! 0 = params wX ! 0"
      unfolding Y using lX by simp_all
    have "Inr (candidate 1 ?cost M_0 ''Z'' wY) = Inr (cZ, wZ)"
      using d candidate_run [OF n [OF lY(1)] lY(2), of "''Z''" ?cost M_0] by simp
    then have Z: "cZ = fst (candidate 1 ?cost M_0 ''Z'' wY)"
      by simp
    have tie: "cX = cY \<and> cY = cZ"
      unfolding X(1) Y(1) Z cand using lX(3) lY(3) by simp
    from t tie obtain w' where
      "rotoselect_step ?cost 1 ?w = Inr ((), w')" "generators w' ! nat 1 = ''Z''"
      by blast
    moreover from h tie have "optimal_theta_and_gen_helper 1 ?cost ?w = Inr ((params wZ ! nat 1, ''Z''), wZ)"
      by simp
    ultimately show ?thesis
      by auto
  qed
qed

subsection \<open>C5: Range of the committed angle\<close>

text \<open>
  C5. For every parameter vector and cost oracle, and every index \<open>d\<close> the vector accepts,
  the value the update rule commits to \<open>params[d]\<close> lies in \<open>(-\<pi>, \<pi>]\<close>, in \<open>opt_theta\<close> and in
  \<open>rotosolve\<close>; hence a Rotosolve cycle returns with every one of the \<open>D\<close> entries in
  \<open>(-\<pi>, \<pi>]\<close>, and so does a Rotoselect cycle on a generator assignment of the same length.
  Floats are reals here: a NaN from the oracle is outside the model.
\<close>

theorem committed_value_in_range:
  "(\<forall>d i. norm_index d (length (params w)) = Some i \<longrightarrow>
      (\<exists>w'. opt_theta d cost w = Inr ((), w') \<and> - pi < params w' ! i \<and> params w' ! i \<le> pi)) \<and>
   (\<forall>d i M_0. norm_index d (length (params v)) = Some i \<longrightarrow>
      (\<exists>c v'. rotosolve d cost' M_0 v = Inr (c, v') \<and> - pi < params v' ! i \<and> params v' ! i \<le> pi)) \<and>
   (\<exists>w'. rotosolve_cycle cost w = Inr (params w', w') \<and>
      length (params w') = length (params w) \<and>
      (\<forall>e<length (params w'). - pi < params w' ! e \<and> params w' ! e \<le> pi)) \<and>
   (length (generators v) = length (params v) \<longrightarrow>
      (\<exists>v'. rotoselect_cycle cost' v = Inr ((params v', generators v'), v') \<and>
         length (params v') = length (params v) \<and>
         (\<forall>e<length (params v'). - pi < params v' ! e \<and> params v' ! e \<le> pi)))"
proof (intro conjI allI impI)
  fix d i assume i: "norm_index d (length (params w)) = Some i"
  show "\<exists>w'. opt_theta d cost w = Inr ((), w') \<and> - pi < params w' ! i \<and> params w' ! i \<le> pi"
    using opt_theta_run [OF i, of cost] opt_theta_result_range [OF norm_index_less [OF i], of cost]
    by simp
next
  fix d i M_0 assume i: "norm_index d (length (params v)) = Some i"
  have "rotosolve d cost' M_0 v = Inr (fst (sel_probe i cost' M_0 v), snd (sel_probe i cost' M_0 v))"
    by (simp add: rotosolve_run [OF i])
  then show "\<exists>c v'. rotosolve d cost' M_0 v = Inr (c, v') \<and>
      - pi < params v' ! i \<and> params v' ! i \<le> pi"
    using sel_probe_range [OF norm_index_less [OF i], of cost' M_0] by blast
next
  show "\<exists>w'. rotosolve_cycle cost w = Inr (params w', w') \<and>
      length (params w') = length (params w) \<and>
      (\<forall>e<length (params w'). - pi < params w' ! e \<and> params w' ! e \<le> pi)"
    using rotosolve_cycle_run [of cost w] by auto
next
  assume "length (generators v) = length (params v)"
  from rotoselect_cycle_run [OF this, of cost']
  show "\<exists>v'. rotoselect_cycle cost' v = Inr ((params v', generators v'), v') \<and>
         length (params v') = length (params v) \<and>
         (\<forall>e<length (params v'). - pi < params v' ! e \<and> params v' ! e \<le> pi)"
    by auto
qed

theorem committed_value_in_range_witness:
  "norm_index (- 1) (length [3 / 10, 1 / 4 :: real]) = Some 1 \<and>
   (\<exists>w'. opt_theta (- 1) (deterministic (\<lambda>ps. sin (ps ! 0) + cos (ps ! 1)))
             \<lparr>params = [3 / 10, 1 / 4], ostate = (), ncalls = 0\<rparr> = Inr ((), w') \<and>
          - pi < params w' ! 1 \<and> params w' ! 1 \<le> pi) \<and>
   (\<exists>c v'. rotosolve (- 1) (\<lambda>s ps gs. (sin (ps ! 0) + cos (ps ! 1), s)) 5
             \<lparr>params = [3 / 10, 1 / 4], ostate = (), ncalls = 0, generators = [''X'', ''Y'']\<rparr>
             = Inr (c, v') \<and>
          - pi < params v' ! 1 \<and> params v' ! 1 \<le> pi) \<and>
   (\<exists>w'. rotosolve_cycle (deterministic (\<lambda>ps. sin (ps ! 0) + cos (ps ! 1)))
             \<lparr>params = [3 / 10, 1 / 4], ostate = (), ncalls = 0\<rparr> = Inr (params w', w') \<and>
          length (params w') = 2 \<and>
          (\<forall>e<length (params w'). - pi < params w' ! e \<and> params w' ! e \<le> pi)) \<and>
   length [''X'', ''Y''] = length [3 / 10, 1 / 4 :: real] \<and>
   (\<exists>v'. rotoselect_cycle (\<lambda>s ps gs. (sin (ps ! 0) + cos (ps ! 1), s))
             \<lparr>params = [3 / 10, 1 / 4], ostate = (), ncalls = 0, generators = [''X'', ''Y'']\<rparr>
             = Inr ((params v', generators v'), v') \<and>
          length (params v') = 2 \<and>
          (\<forall>e<length (params v'). - pi < params v' ! e \<and> params v' ! e \<le> pi))"
proof -
  note th = committed_value_in_range
    [of "\<lparr>params = [3 / 10, 1 / 4], ostate = (), ncalls = 0\<rparr>"
      "deterministic (\<lambda>ps. sin (ps ! 0) + cos (ps ! 1))"
      "\<lparr>params = [3 / 10, 1 / 4], ostate = (), ncalls = 0, generators = [''X'', ''Y'']\<rparr>"
      "\<lambda>s ps gs. (sin (ps ! 0) + cos (ps ! 1), s)"]
  have n: "norm_index (- 1) (length [3 / 10, 1 / 4 :: real]) = Some 1"
    by (simp add: norm_index_def)
  from th have a: "\<exists>w'. opt_theta (- 1) (deterministic (\<lambda>ps. sin (ps ! 0) + cos (ps ! 1)))
             \<lparr>params = [3 / 10, 1 / 4], ostate = (), ncalls = 0\<rparr> = Inr ((), w') \<and>
          - pi < params w' ! 1 \<and> params w' ! 1 \<le> pi"
    using n by simp
  from th have b: "\<exists>c v'. rotosolve (- 1) (\<lambda>s ps gs. (sin (ps ! 0) + cos (ps ! 1), s)) 5
             \<lparr>params = [3 / 10, 1 / 4], ostate = (), ncalls = 0, generators = [''X'', ''Y'']\<rparr>
             = Inr (c, v') \<and>
          - pi < params v' ! 1 \<and> params v' ! 1 \<le> pi"
    using n by simp
  from th n a b show ?thesis
    by (simp add: numeral_2_eq_2)
qed

subsection \<open>C6: The optimization loops\<close>



subsection \<open>C7: Idempotence\<close>

text \<open>
  C7. For every deterministic cost oracle, applying the update rule twice in a row to the
  same index leaves the parameter vector after the second call equal to the one after the
  first, so in particular \<open>params[d]\<close> is the same. The rule overwrites \<open>params[d]\<close> before
  its first probe, so this holds for every function \<open>f\<close> of the parameters; the oracles
  that are sinusoids of period \<open>2\<pi>\<close> in \<open>params[d]\<close> are among them (the witness uses one).
\<close>

theorem opt_theta_idempotent:
  assumes "norm_index d (length (params w)) \<noteq> None"
  shows "\<exists>w1 w2. opt_theta d (deterministic f) w = Inr ((), w1) \<and>
                 opt_theta d (deterministic f) w1 = Inr ((), w2) \<and>
                 params w2 = params w1"
proof -
  from assms obtain i where i: "norm_index d (length (params w)) = Some i"
    by auto
  let ?w1 = "opt_theta_result i (deterministic f) w"
  have i1: "norm_index d (length (params ?w1)) = Some i"
    using i by simp
  have "params (opt_theta_result i (deterministic f) ?w1) = params ?w1"
    by (simp add: opt_theta_result_def deterministic_def Let_def)
  then show ?thesis
    using opt_theta_run [OF i] opt_theta_run [OF i1] by blast
qed

theorem opt_theta_idempotent_witness:
  "norm_index 0 (length [3 / 10, 1 / 4 :: real]) \<noteq> None \<and>
   (\<exists>w1 w2. opt_theta 0 (deterministic (\<lambda>ps. 2 * sin (ps ! 0 + ps ! 1) + 1))
                \<lparr>params = [3 / 10, 1 / 4], ostate = (), ncalls = 0\<rparr> = Inr ((), w1) \<and>
             opt_theta 0 (deterministic (\<lambda>ps. 2 * sin (ps ! 0 + ps ! 1) + 1)) w1 = Inr ((), w2) \<and>
             params w2 = params w1)"
  using opt_theta_idempotent [of 0 "\<lparr>params = [3 / 10, 1 / 4], ostate = (), ncalls = 0\<rparr>"
      "\<lambda>ps. 2 * sin (ps ! 0 + ps ! 1) + 1"]
  by (simp add: norm_index_def)

subsection \<open>C8: Unknown generator tags\<close>

text \<open>
  C8 does not hold of the code. \<open>RGen\<close> has no \<^verbatim>\<open>else\<close> branch and the source has no
  \<^verbatim>\<open>raise\<close>: a tag outside X, Y, Z falls through the chain, no gate is queued and the
  call returns normally. At the tag \<^verbatim>\<open>"W"\<close> the recorded circuit is unchanged.
\<close>

theorem RGen_unknown_tag_counterexample:
  "RGen (3 / 10) ''W'' 0 [] = Inr ((), [])"
  by (simp add: RGen_def return_def)

text \<open>
  C8, amended: for every generator tag outside X, Y, Z the dispatch returns without an
  error and leaves the recorded circuit as it was (no gate is applied).
\<close>

theorem RGen_unknown_tag:
  assumes "generator \<notin> {''X'', ''Y'', ''Z''}"
  shows "RGen param generator wires tape = Inr ((), tape)"
  using assms by (simp add: RGen_def return_def)

theorem RGen_unknown_tag_witness:
  "''W'' \<notin> {''X'', ''Y'', ''Z''} \<and> RGen (3 / 10) ''W'' 0 [CNOT 0 1] = Inr ((), [CNOT 0 1])"
  using RGen_unknown_tag [of "''W''" "3 / 10" 0 "[CNOT 0 1]"] by simp

subsection \<open>C9: Indices out of range\<close>

text \<open>
  C9 does not hold of the code. The update rule subscripts \<^verbatim>\<open>params\<close> with \<open>d\<close> and checks
  nothing itself, so a negative \<open>d\<close> in \<open>[-D, 0)\<close> is accepted, as Python subscripts are:
  \<open>d = -1\<close> on a vector of length 2 updates the last entry and returns.
\<close>

theorem opt_theta_negative_index_counterexample:
  "opt_theta (- 1) (deterministic (\<lambda>ps. 0)) \<lparr>params = [3 / 10, 1 / 4], ostate = (), ncalls = 0\<rparr>
     = Inr ((), \<lparr>params = [3 / 10, - pi / 2], ostate = (), ncalls = 3\<rparr>)"
  by (simp add: opt_theta_run [where i = 1] norm_index_def opt_theta_result_def deterministic_def
      theta_star_def arctan2_def)

text \<open>
  C9, amended: on a parameter vector of length \<open>D\<close>, the update rule raises
  \<^verbatim>\<open>IndexError\<close> for every \<open>d \<ge> D\<close> and every \<open>d < -D\<close>. An index \<open>d\<close> in \<open>[-D, 0)\<close> is accepted
  and the call updates entry \<open>D + d\<close>: it probes the oracle with that entry at \<open>0\<close>, \<open>\<pi>/2\<close>
  and \<open>-\<pi>/2\<close> and commits the rule's angle there (\<open>-\<pi>/2 - a\<close>, plus \<open>2\<pi>\<close> when that is at or
  below \<open>-\<pi>\<close>), leaving the length and every other entry as they were. The theorem gives
  the whole final state.
\<close>

theorem opt_theta_index:
  "(d < - int (length (params w)) \<or> int (length (params w)) \<le> d \<longrightarrow>
      opt_theta d cost w = Inl IndexError) \<and>
   (- int (length (params w)) \<le> d \<and> d < 0 \<longrightarrow>
      (let ps = params w; i = nat (int (length ps) + d);
           r0 = cost (ostate w) (ps[i := 0]);
           rp = cost (snd r0) (ps[i := pi / 2]);
           rm = cost (snd rp) (ps[i := - pi / 2]);
           a = arctan2 (2 * fst r0 - fst rp - fst rm) (fst rp - fst rm);
           t = - pi / 2 - a;
           th = (if t \<le> - pi then t + 2 * pi else t)
       in \<exists>w'. opt_theta d cost w = Inr ((), w') \<and>
            w' = w\<lparr>params := ps[i := th], ostate := snd rm, ncalls := ncalls w + 3\<rparr> \<and>
            length (params w') = length (params w) \<and>
            params w' ! i = th \<and>
            (\<forall>e. e \<noteq> i \<longrightarrow> params w' ! e = params w ! e)))"
proof (intro conjI impI)
  assume "d < - int (length (params w)) \<or> int (length (params w)) \<le> d"
  then have "norm_index d (length (params w)) = None"
    by (auto simp: norm_index_def)
  then show "opt_theta d cost w = Inl IndexError"
    by (rule opt_theta_raises)
next
  assume neg: "- int (length (params w)) \<le> d \<and> d < 0"
  define i where "i = nat (int (length (params w)) + d)"
  have idx: "norm_index d (length (params w)) = Some i"
    using neg by (auto simp: norm_index_def i_def)
  have il: "i < length (params w)"
    using idx by (rule norm_index_less)
  show "let ps = params w; i = nat (int (length ps) + d);
           r0 = cost (ostate w) (ps[i := 0]);
           rp = cost (snd r0) (ps[i := pi / 2]);
           rm = cost (snd rp) (ps[i := - pi / 2]);
           a = arctan2 (2 * fst r0 - fst rp - fst rm) (fst rp - fst rm);
           t = - pi / 2 - a;
           th = (if t \<le> - pi then t + 2 * pi else t)
       in \<exists>w'. opt_theta d cost w = Inr ((), w') \<and>
            w' = w\<lparr>params := ps[i := th], ostate := snd rm, ncalls := ncalls w + 3\<rparr> \<and>
            length (params w') = length (params w) \<and>
            params w' ! i = th \<and>
            (\<forall>e. e \<noteq> i \<longrightarrow> params w' ! e = params w ! e)"
    unfolding i_def [symmetric] Let_def
    using il by (simp add: opt_theta_run [OF idx] opt_theta_result_def theta_star_def Let_def)
qed

theorem opt_theta_index_witness:
  "opt_theta 2 (deterministic (\<lambda>ps. sin (ps ! 0) + cos (ps ! 1)))
       \<lparr>params = [3 / 10, 1 / 4], ostate = (), ncalls = 0\<rparr> = Inl IndexError \<and>
   opt_theta (- 3) (deterministic (\<lambda>ps. sin (ps ! 0) + cos (ps ! 1)))
       \<lparr>params = [3 / 10, 1 / 4], ostate = (), ncalls = 0\<rparr> = Inl IndexError \<and>
   opt_theta (- 2) (deterministic (\<lambda>ps. sin (ps ! 0) + cos (ps ! 1)))
       \<lparr>params = [3 / 10, 1 / 4], ostate = (), ncalls = 0\<rparr>
     = Inr ((), \<lparr>params = [- pi / 2, 1 / 4], ostate = (), ncalls = 3\<rparr>) \<and>
   opt_theta (- 1) (deterministic (\<lambda>ps. sin (ps ! 0) + cos (ps ! 1)))
       \<lparr>params = [3 / 10, 1 / 4], ostate = (), ncalls = 0\<rparr>
     = Inr ((), \<lparr>params = [3 / 10, pi], ostate = (), ncalls = 3\<rparr>)"
proof -
  let ?cost = "deterministic (\<lambda>ps. sin (ps ! 0) + cos (ps ! 1)) :: unit cost_fn"
  let ?w = "\<lparr>params = [3 / 10, 1 / 4], ostate = (), ncalls = 0\<rparr>"
  have a: "opt_theta 2 ?cost ?w = Inl IndexError"
    using opt_theta_index [of 2 ?w ?cost] by simp
  have b: "opt_theta (- 3) ?cost ?w = Inl IndexError"
    using opt_theta_index [of "- 3" ?w ?cost] by simp
  have c: "opt_theta (- 2) ?cost ?w = Inr ((), \<lparr>params = [- pi / 2, 1 / 4], ostate = (), ncalls = 3\<rparr>)"
    using opt_theta_index [of "- 2" ?w ?cost]
    by (simp add: deterministic_def arctan2_def Let_def)
  have d: "opt_theta (- 1) ?cost ?w = Inr ((), \<lparr>params = [3 / 10, pi], ostate = (), ncalls = 3\<rparr>)"
    using opt_theta_index [of "- 1" ?w ?cost]
    by (simp add: deterministic_def arctan2_def Let_def)
  from a b c d show ?thesis
    by simp
qed

subsection \<open>C10: The cycle commits the winner\<close>

text \<open>
  C10. Let \<open>d < D\<close>. The cycle first processes the indices before \<open>d\<close>, reaching a state
  \<open>w1\<close>. On \<open>w1\<close> the helper returns a winner \<open>(p, g)\<close> and leaves, in place, the generator
  of the candidate it probed last, Z. The cycle's step at \<open>d\<close> then stores the winner:
  \<open>params[d] = p\<close> and \<open>generators[d] = g\<close>. The remaining indices \<open>d + 1, \<dots>, D - 1\<close> leave
  every entry \<open>e \<le> d\<close> of both arrays as it was, so the arrays the cycle returns hold the
  winner of index \<open>d\<close> at \<open>d\<close>. In the witness the winner at index 0 is Y, not the Z that
  the helper left there.
\<close>

theorem rotoselect_commits_winner:
  assumes "length (generators w) = length (params w)" and "d < length (params w)"
  shows "\<exists>p g wh w1 w1' w2.
      for_loop (range_py (int d)) (\<lambda>d _. rotoselect_step cost d) () w = Inr ((), w1) \<and>
      optimal_theta_and_gen_helper (int d) cost w1 = Inr ((p, g), wh) \<and>
      generators wh ! d = ''Z'' \<and>
      rotoselect_step cost (int d) w1 = Inr ((), w1') \<and>
      params w1' ! d = p \<and> generators w1' ! d = g \<and>
      for_loop (map int [Suc d..<length (params w)]) (\<lambda>d _. rotoselect_step cost d) () w1' =
        Inr ((), w2) \<and>
      (\<forall>e\<le>d. params w2 ! e = params w1' ! e \<and> generators w2 ! e = generators w1' ! e) \<and>
      rotoselect_cycle cost w = Inr ((params w2, generators w2), w2)"
proof -
  have "\<forall>j\<in>set [0..<d]. j < length (params w)"
    using assms(2) by simp
  from rotoselect_loop_run [OF assms(1) this, of cost] obtain w1 where
    pre: "for_loop (map int [0..<d]) (\<lambda>d _. rotoselect_step cost d) () w = Inr ((), w1)"
    and len1: "length (params w1) = length (params w)"
    and glen1: "length (generators w1) = length (generators w)"
    by blast
  have eq1: "length (generators w1) = length (params w1)" and d1: "d < length (params w1)"
    using assms len1 glen1 by simp_all
  have idx: "norm_index (int d) (length (params w1)) = Some d"
    using d1 by (rule norm_index_int)
  define p where "p = fst (fst (helper_result d cost w1))"
  define g where "g = snd (fst (helper_result d cost w1))"
  define wh where "wh = snd (helper_result d cost w1)"
  define w1' where "w1' = step_result d cost w1"
  have h: "optimal_theta_and_gen_helper (int d) cost w1 = Inr ((p, g), wh)"
    by (simp add: helper_run [OF idx eq1] p_def g_def wh_def)
  have z: "generators wh ! d = ''Z''"
    unfolding wh_def using d1 eq1 by (intro helper_result_Z) simp
  have st: "rotoselect_step cost (int d) w1 = Inr ((), w1')"
    unfolding w1'_def using idx eq1 by (rule rotoselect_step_run)
  have pd: "params w1' ! d = p" and gd: "generators w1' ! d = g"
    using d1 eq1 by (simp_all add: w1'_def step_result_def Let_def p_def g_def)
  have eq1': "length (generators w1') = length (params w1')"
    using eq1 by (simp add: w1'_def)
  have "\<forall>j\<in>set [Suc d..<length (params w)]. j < length (params w1')"
    using len1 by (simp add: w1'_def)
  from rotoselect_loop_run [OF eq1' this, of cost] obtain w2 where
    post: "for_loop (map int [Suc d..<length (params w)]) (\<lambda>d _. rotoselect_step cost d) () w1' =
             Inr ((), w2)"
    and frame: "\<forall>e. e \<notin> set [Suc d..<length (params w)] \<longrightarrow>
                  params w2 ! e = params w1' ! e \<and> generators w2 ! e = generators w1' ! e"
    by blast
  have keep: "\<forall>e\<le>d. params w2 ! e = params w1' ! e \<and> generators w2 ! e = generators w1' ! e"
    using frame by simp
  have cyc: "rotoselect_cycle cost w = Inr ((params w2, generators w2), w2)"
    using assms(2) pre st post by (rule rotoselect_cycle_split)
  from pre h z st pd gd post keep cyc show ?thesis
    unfolding range_py_int by blast
qed

theorem rotoselect_commits_winner_witness:
  "length [''X'', ''Y''] = length [3 / 10, 1 / 4 :: real] \<and> (0::nat) < length [3 / 10, 1 / 4 :: real] \<and>
   (\<exists>wh w2.
      optimal_theta_and_gen_helper 0 (\<lambda>s ps gs. (if gs ! 0 = ''Y'' then sin (ps ! 0) else 0, ()))
          \<lparr>params = [3 / 10, 1 / 4], ostate = (), ncalls = 0, generators = [''X'', ''Y'']\<rparr>
        = Inr ((- pi / 2, ''Y''), wh) \<and>
      generators wh ! 0 = ''Z'' \<and>
      rotoselect_cycle (\<lambda>s ps gs. (if gs ! 0 = ''Y'' then sin (ps ! 0) else 0, ()))
          \<lparr>params = [3 / 10, 1 / 4], ostate = (), ncalls = 0, generators = [''X'', ''Y'']\<rparr>
        = Inr ((params w2, generators w2), w2) \<and>
      params w2 ! 0 = - pi / 2 \<and> generators w2 ! 0 = ''Y'')"
proof -
  let ?cost = "\<lambda>(s::unit) (ps::real list) (gs::string list).
                 (if gs ! 0 = ''Y'' then sin (ps ! 0) else 0 :: real, ())"
  let ?w = "\<lparr>params = [3 / 10, 1 / 4], ostate = (), ncalls = 0, generators = [''X'', ''Y'']\<rparr>"
  let ?wB = "\<lparr>params = [0, 1 / 4], ostate = (), ncalls = 1, generators = [''X'', ''Y'']\<rparr>"
  let ?wX = "\<lparr>params = [- pi / 2, 1 / 4], ostate = (), ncalls = 4, generators = [''X'', ''Y'']\<rparr>"
  let ?wY = "\<lparr>params = [- pi / 2, 1 / 4], ostate = (), ncalls = 7, generators = [''Y'', ''Y'']\<rparr>"
  let ?wZ = "\<lparr>params = [- pi / 2, 1 / 4], ostate = (), ncalls = 10, generators = [''Z'', ''Y'']\<rparr>"
  have b: "baseline 0 ?cost ?w = (0, ?wB)"
    by (simp add: baseline_def Let_def)
  have x: "candidate 0 ?cost 0 ''X'' ?wB = (0, ?wX)"
    by (simp add: candidate_def sel_probe_def theta_star_def arctan2_def)
  have y: "candidate 0 ?cost 0 ''Y'' ?wX = (- 1, ?wY)"
    by (simp add: candidate_def sel_probe_def theta_star_def arctan2_def)
  have z: "candidate 0 ?cost 0 ''Z'' ?wY = (0, ?wZ)"
    by (simp add: candidate_def sel_probe_def theta_star_def arctan2_def)
  have "helper_result 0 ?cost ?w = (winner 0 (0, ?wX) (- 1, ?wY) (0, ?wZ), ?wZ)"
    by (simp only: helper_result_def Let_def b x y z fst_conv snd_conv)
  then have ev: "helper_result 0 ?cost ?w = ((- pi / 2, ''Y''), ?wZ)"
    by (simp add: winner_def)
  have "optimal_theta_and_gen_helper 0 ?cost ?w = Inr (helper_result 0 ?cost ?w)"
    by (rule helper_run [where i = 0]) (simp_all add: norm_index_def)
  then have h: "optimal_theta_and_gen_helper 0 ?cost ?w = Inr ((- pi / 2, ''Y''), ?wZ)"
    by (simp only: ev)
  have "length (generators ?w) = length (params ?w)" "0 < length (params ?w)"
    by simp_all
  from rotoselect_commits_winner [OF this, of ?cost] show ?thesis
  proof (elim exE conjE)
    fix p g wh w1 w1' w2
    assume pre: "for_loop (range_py (int 0)) (\<lambda>d _. rotoselect_step ?cost d) () ?w = Inr ((), w1)"
      and hh: "optimal_theta_and_gen_helper (int 0) ?cost w1 = Inr ((p, g), wh)"
      and zz: "generators wh ! 0 = ''Z''"
      and pg: "params w1' ! 0 = p" "generators w1' ! 0 = g"
      and keep: "\<forall>e\<le>0. params w2 ! e = params w1' ! e \<and> generators w2 ! e = generators w1' ! e"
      and cyc: "rotoselect_cycle ?cost ?w = Inr ((params w2, generators w2), w2)"
    from pre have "w1 = ?w"
      by (simp add: range_py_def return_def)
    with hh have e1: "optimal_theta_and_gen_helper 0 ?cost ?w = Inr ((p, g), wh)"
      by simp
    have "Inr ((p, g), wh) = (Inr ((- pi / 2, ''Y''), ?wZ) :: error + _)"
      by (rule trans [OF e1 [symmetric] h])
    then have "p = - pi / 2" "g = ''Y''" "wh = ?wZ"
      by simp_all
    with zz pg keep cyc h show ?thesis
      by auto
  qed
qed

end
